theory Spec2Isabelle
  imports Complex_Main
begin

section \<open>Particle filter core of ParticleFilter2.py\<close>

text \<open>
  The program computes with numpy float64 arrays.  The embedding reads a float as a
  \<^typ>\<open>real\<close>, an array of shape (N,) as a \<^typ>\<open>real list\<close> and the particle array
  of shape (N, 3) as a list of triples \<open>(x, y, \<theta>)\<close>, and computes with exact real
  arithmetic; where Python raises, the model returns the matching error.  Rounding and
  overflow are outside this reading.  Where a claim turns on them, the operation is
  given a second time as float64 computes it (the definitions named \<open>_f64\<close>), and the
  theorem says which reading it is about.

  Random draws are inputs: a call \<open>randn(N)\<close> or \<open>rand(N)\<close> is the list of the first
  \<open>N\<close> values of a draw function \<^typ>\<open>nat \<Rightarrow> real\<close>, one function per call site.
\<close>

subsection \<open>Angle normalizer\<close>

text \<open>
  Python's \<open>d % m\<close> on floats with \<open>m > 0\<close> is \<open>d - m * floor (d / m)\<close>, a value in
  \<open>[0, m)\<close>.
\<close>

definition pymod :: "real \<Rightarrow> real \<Rightarrow> real" where
  "pymod d m = d - m * of_int \<lfloor>d / m\<rfloor>"

text \<open>
  \<^verbatim>\<open>
  def wrapToPi(d):
      d = d % (2 * np.pi)
      if d > np.pi:
          d -= 2 * np.pi
      return d
  \<close>
\<close>

definition wrapToPi :: "real \<Rightarrow> real" where
  "wrapToPi d =
     (let d1 = pymod d (2 * pi)
      in if d1 > pi then d1 - 2 * pi else d1)"

text \<open>
  The errors the code can raise: an index out of range, a shape numpy cannot broadcast,
  \<open>np.linalg.inv\<close> on a singular matrix, Python's float division by zero; and
  \<open>NonFinite\<close> where \<open>neff\<close> or \<open>update\<close> divides by a zero sum, which numpy does
  with a warning.
\<close>

datatype error = IndexError | ShapeError | SingularMatrix | ZeroDivisionError | NonFinite

text \<open>
  \<^verbatim>\<open>
  def wrapToPiN(d, N):
      for i in range(0, N):
          d[i] = d[i] % (2 * np.pi)
          if d[i] > np.pi:
              d[i] -= 2 * np.pi
      return d
  \<close>
  The entries \<open>0 .. N-1\<close> are wrapped; \<open>d[i]\<close> raises when \<open>d\<close> is shorter than \<open>N\<close>.
\<close>

definition wrapToPiN :: "real list \<Rightarrow> nat \<Rightarrow> error + real list" where
  "wrapToPiN d n =
     (if n \<le> length d then Inr (map wrapToPi (take n d) @ drop n d)
      else Inl IndexError)"

subsection \<open>Degeneracy monitor\<close>


subsection \<open>Filter state and construction\<close>

type_synonym particle = "real \<times> real \<times> real"

text \<open>The fields of a \<open>ParticleFilter\<close> object; \<open>self.N\<close> is \<open>self_N\<close>, and so on.\<close>

record ParticleFilter =
  self_dt :: real
  self_N :: nat
  self_landmarks :: "(real \<times> real) list"
  self_robot :: particle
  self_weights :: "real list"
  self_Q :: "real \<times> real \<times> real"
  self_R :: "real \<times> real"
  self_particles :: "particle list"

definition randn :: "(nat \<Rightarrow> real) \<Rightarrow> nat \<Rightarrow> real list" where
  "randn g n = map g [0..<n]"

definition rand :: "(nat \<Rightarrow> real) \<Rightarrow> nat \<Rightarrow> real list" where
  "rand g n = map g [0..<n]"

text \<open>Writing one column of the particle array: \<open>particles[:, c] = v\<close>.\<close>

definition set_col0 :: "particle list \<Rightarrow> real list \<Rightarrow> particle list" where
  "set_col0 ps v = map2 (\<lambda>(x, y, t) a. (a, y, t)) ps v"

definition set_col1 :: "particle list \<Rightarrow> real list \<Rightarrow> particle list" where
  "set_col1 ps v = map2 (\<lambda>(x, y, t) a. (x, a, t)) ps v"

definition set_col2 :: "particle list \<Rightarrow> real list \<Rightarrow> particle list" where
  "set_col2 ps v = map2 (\<lambda>(x, y, t) a. (x, y, a)) ps v"

definition col0 :: "particle list \<Rightarrow> real list" where
  "col0 ps = map (\<lambda>(x, y, t). x) ps"

definition col1 :: "particle list \<Rightarrow> real list" where
  "col1 ps = map (\<lambda>(x, y, t). y) ps"

definition col2 :: "particle list \<Rightarrow> real list" where
  "col2 ps = map (\<lambda>(x, y, t). t) ps"

text \<open>
  \<^verbatim>\<open>
  def create_gaussian_particles(mean, std, N):
      particles = np.empty((N, 3))
      particles[:, 0] = mean[0] + (randn(N) * std[0])
      particles[:, 1] = mean[1] + (randn(N) * std[1])
      particles[:, 2] = mean[2] + (randn(N) * std[2])
      for i in range(0, N):
          particles[i, 2] = wrapToPi(particles[i, 2])
      return particles
  \<close>
  \<open>g0\<close>, \<open>g1\<close>, \<open>g2\<close> are the draws of the three \<open>randn(N)\<close> calls.
\<close>

definition create_gaussian_particles ::
  "particle \<Rightarrow> real \<times> real \<times> real \<Rightarrow> nat \<Rightarrow>
   (nat \<Rightarrow> real) \<Rightarrow> (nat \<Rightarrow> real) \<Rightarrow> (nat \<Rightarrow> real) \<Rightarrow> particle list" where
  "create_gaussian_particles mean std n g0 g1 g2 =
     (case (mean, std) of ((m0, m1, m2), (s0, s1, s2)) \<Rightarrow>
        let c0 = map (\<lambda>r. m0 + r * s0) (randn g0 n);
            c1 = map (\<lambda>r. m1 + r * s1) (randn g1 n);
            c2 = map (\<lambda>r. m2 + r * s2) (randn g2 n);
            particles = zip c0 (zip c1 c2)
        in set_col2 particles (map wrapToPi (col2 particles)))"

text \<open>
  \<^verbatim>\<open>
  def __init__(self, N, landmarks, Q, R, robot, dt):
      self.dt = dt
      self.N = N
      self.landmarks = landmarks
      self.robot = robot
      self.weights = np.ones(N)/N
      self.Q = Q
      self.R = R
      self.particles = create_gaussian_particles(robot, np.array([0.1,0.1,0.1]), N)
  \<close>
\<close>

definition init ::
  "nat \<Rightarrow> (real \<times> real) list \<Rightarrow> real \<times> real \<times> real \<Rightarrow> real \<times> real \<Rightarrow> particle \<Rightarrow> real \<Rightarrow>
   (nat \<Rightarrow> real) \<Rightarrow> (nat \<Rightarrow> real) \<Rightarrow> (nat \<Rightarrow> real) \<Rightarrow> ParticleFilter" where
  "init n landmarks q r robot dt g0 g1 g2 =
     \<lparr> self_dt = dt, self_N = n, self_landmarks = landmarks, self_robot = robot,
       self_weights = map (\<lambda>w. w / real n) (replicate n 1),
       self_Q = q, self_R = r,
       self_particles = create_gaussian_particles robot (1 / 10, 1 / 10, 1 / 10) n g0 g1 g2 \<rparr>"

text \<open>
  The constructor makes \<open>self.particles\<close> and \<open>self.weights\<close> of length \<open>self.N\<close>, and
  every method writes them in place (\<open>a[:] = \<dots>\<close>, \<open>*=\<close>, \<open>+=\<close>, \<open>/=\<close>, \<open>fill\<close>), so the
  three never differ.  At such a state numpy's elementwise operations are the \<open>map2\<close>s
  below.  At any other state the methods of the model return \<open>ShapeError\<close> where numpy
  would raise a ValueError or broadcast a length-1 operand.
\<close>

definition shapes_ok :: "ParticleFilter \<Rightarrow> bool" where
  "shapes_ok pf \<longleftrightarrow>
     length (self_particles pf) = self_N pf \<and> length (self_weights pf) = self_N pf"

subsection \<open>Motion model\<close>

text \<open>
  \<^verbatim>\<open>
  def predict(self, u, dt):
      N = self.N
      std = self.Q
      self.particles[:,0] = self.particles[:, 0] + np.cos(self.particles[:, 2]) * (u[0]+ (randn(N) * std[0])) * dt
      self.particles[:,1] = self.particles[:, 1] + np.sin(self.particles[:, 2]) * (u[0]+ (randn(N) * std[1])) * dt
      self.particles[:,2] = self.particles[:, 2] + dt * (u[1] + randn(N) * std[2])
      for i in range(0, N):
          self.particles[i, 2] = wrapToPi(self.particles[i, 2])
  \<close>
  The three assignments run in this order, each on the array the one before left.
\<close>

definition predict ::
  "ParticleFilter \<Rightarrow> real \<times> real \<Rightarrow> real \<Rightarrow>
   (nat \<Rightarrow> real) \<Rightarrow> (nat \<Rightarrow> real) \<Rightarrow> (nat \<Rightarrow> real) \<Rightarrow> error + ParticleFilter" where
  "predict pf u dt g0 g1 g2 =
     (case (u, self_Q pf) of ((u0, u1), (std0, std1, std2)) \<Rightarrow>
        let n = self_N pf in
        if \<not> shapes_ok pf then Inl ShapeError
        else
          let p0 = self_particles pf;
              p1 = set_col0 p0
                     (map2 (+) (col0 p0)
                        (map2 (\<lambda>c r. c * (u0 + r * std0) * dt) (map cos (col2 p0)) (randn g0 n)));
              p2 = set_col1 p1
                     (map2 (+) (col1 p1)
                        (map2 (\<lambda>s r. s * (u0 + r * std1) * dt) (map sin (col2 p1)) (randn g1 n)));
              p3 = set_col2 p2
                     (map2 (+) (col2 p2) (map (\<lambda>r. dt * (u1 + r * std2)) (randn g2 n)));
              p4 = set_col2 p3 (map wrapToPi (col2 p3))
          in Inr (pf\<lparr>self_particles := p4\<rparr>))"

subsection \<open>Likelihood model and measurement update\<close>

text \<open>
  \<open>np.arctan2(y, x)\<close>: the angle of the point \<open>(x, y)\<close> in \<open>[-\<pi>, \<pi>]\<close>, with
  \<open>arctan2(0, 0) = 0\<close> (the signed zeros of floats are outside the model).
\<close>

definition arctan2 :: "real \<Rightarrow> real \<Rightarrow> real" where
  "arctan2 y x =
     (if 0 < x then arctan (y / x)
      else if x < 0 then (if 0 \<le> y then arctan (y / x) + pi else arctan (y / x) - pi)
      else if 0 < y then pi / 2
      else if y < 0 then - pi / 2
      else 0)"

text \<open>
  \<^verbatim>\<open>
  def normpdf(x, mu, std):
      cov = np.diag((1,1))*std
      part1 = 1 / ( ((2* np.pi)**(len(mu)/2)) * (np.linalg.det(cov)**(1/2)) )
      part2 = (-1/2) * ((x-mu).T.dot(np.linalg.inv(cov))).dot((x-mu))
      return float(part1 * np.exp(part2))
  \<close>
  \<open>x\<close> and \<open>mu\<close> are arrays of two floats, \<open>std\<close> is one float.  \<open>cov\<close> is the matrix
  \<open>[[std, 0], [0, std]]\<close>, its determinant \<open>std * std\<close>, its inverse
  \<open>[[1/std, 0], [0, 1/std]]\<close>; \<open>np.linalg.inv\<close> raises LinAlgError when \<open>std\<close> is
  zero.  \<open>len(mu)\<close> is 2.  The value is the exact one: \<open>np.exp\<close> returns \<open>inf\<close>
  instead once \<open>part2\<close> is above 709.78, where \<open>exp part2\<close> is beyond the largest
  float64.
\<close>

definition normpdf :: "real \<times> real \<Rightarrow> real \<times> real \<Rightarrow> real \<Rightarrow> error + real" where
  "normpdf x mu std =
     (case (x, mu) of ((x0, x1), (mu0, mu1)) \<Rightarrow>
        let det_cov = std * std;
            part1 = 1 / ((2 * pi) powr (2 / 2) * sqrt det_cov)
        in if det_cov = 0 then Inl SingularMatrix
           else
             let part2 = (- 1 / 2) *
                   ((x0 - mu0) * (1 / std) * (x0 - mu0) + (x1 - mu1) * (1 / std) * (x1 - mu1))
             in Inr (part1 * exp part2))"

text \<open>A list comprehension whose body may raise: the first exception ends it.\<close>

fun collect :: "(error + 'a) list \<Rightarrow> error + 'a list" where
  "collect [] = Inr []"
| "collect (Inl e # rs) = Inl e"
| "collect (Inr v # rs) = (case collect rs of Inl e \<Rightarrow> Inl e | Inr vs \<Rightarrow> Inr (v # vs))"

text \<open>
  The body of the loop of \<open>update\<close> for the landmark of index \<open>i\<close>:
  \<^verbatim>\<open>
      landmark= self.landmarks[i]
      distance = np.linalg.norm(self.particles[:, 0:2] - landmark, axis = 1)
      angle = np.array(wrapToPiN(np.arctan2( self.particles[:,1] - landmark[1],  self.particles[:,0] - landmark[0]) - self.particles[:,2], self.N))
      distance = np.array((np.array([distance, angle])).T)
      self.weights *= [normpdf(distance[j], self.R, z[0,i]) for j in range(0, np.size(distance,0))]
  \<close>
  \<open>z\<close> is a matrix of one row, here the list of its entries; \<open>z[0,i]\<close> raises
  IndexError when the row has no entry \<open>i\<close>.
\<close>

definition update_landmark :: "ParticleFilter \<Rightarrow> real list \<Rightarrow> nat \<Rightarrow> error + ParticleFilter" where
  "update_landmark pf z i =
     (if \<not> shapes_ok pf then Inl ShapeError
      else
        case self_landmarks pf ! i of (l0, l1) \<Rightarrow>
          let ps = self_particles pf;
              distance = map (\<lambda>(x, y, t). sqrt ((x - l0)\<^sup>2 + (y - l1)\<^sup>2)) ps;
              bearing = map (\<lambda>(x, y, t). arctan2 (y - l1) (x - l0) - t) ps
          in case wrapToPiN bearing (self_N pf) of
               Inl e \<Rightarrow> Inl e
             | Inr angle \<Rightarrow>
                 let distance2 = zip distance angle
                 in case collect (map (\<lambda>d. if i < length z then normpdf d (self_R pf) (z ! i)
                                            else Inl IndexError) distance2) of
                      Inl e \<Rightarrow> Inl e
                    | Inr fs \<Rightarrow> Inr (pf\<lparr>self_weights := map2 (*) (self_weights pf) fs\<rparr>))"

fun update_loop :: "ParticleFilter \<Rightarrow> real list \<Rightarrow> nat list \<Rightarrow> error + ParticleFilter" where
  "update_loop pf z [] = Inr pf"
| "update_loop pf z (i # is) =
     (case update_landmark pf z i of Inl e \<Rightarrow> Inl e | Inr pf' \<Rightarrow> update_loop pf' z is)"

text \<open>The floor \<open>1.e-300\<close> added to every weight.\<close>

definition weight_floor :: real where
  "weight_floor = 1 / 10 ^ 300"

text \<open>
  \<^verbatim>\<open>
  def update(self, z):
      for i in range(0,self.landmarks.shape[0]):
          ...
      self.weights += 1.e-300       # avoid round-off to zero
      self.weights /= sum(self.weights) # Normalize to sum to 1
  \<close>
  In exact arithmetic, on the finite weights the loop leaves.
\<close>

definition update :: "ParticleFilter \<Rightarrow> real list \<Rightarrow> error + ParticleFilter" where
  "update pf z =
     (case update_loop pf z [0..<length (self_landmarks pf)] of
        Inl e \<Rightarrow> Inl e
      | Inr pf1 \<Rightarrow>
          let w1 = map (\<lambda>w. w + weight_floor) (self_weights pf1);
              s = sum_list w1
          in if s = 0 then Inl NonFinite
             else Inr (pf1\<lparr>self_weights := map (\<lambda>w. w / s) w1\<rparr>))"

text \<open>
  The likelihood the specification describes, for comparison: the density at the
  predicted \<open>(range, bearing)\<close> of the Gaussian centred at the observed pair, with the
  diagonal covariance \<open>[[r0, 0], [0, r1]]\<close> of the measurement noise.
\<close>

definition spec_density :: "real \<times> real \<Rightarrow> real \<times> real \<Rightarrow> real \<times> real \<Rightarrow> real" where
  "spec_density predicted observed r =
     (case (predicted, observed, r) of ((p0, p1), (o0, o1), (r0, r1)) \<Rightarrow>
        1 / (2 * pi * sqrt (r0 * r1)) *
        exp (- (1 / 2) * ((p0 - o0)\<^sup>2 / r0 + (p1 - o1)\<^sup>2 / r1)))"

subsection \<open>Resampling\<close>

text \<open>\<open>np.cumsum\<close>: the running sums.\<close>

fun cumsum_from :: "real \<Rightarrow> real list \<Rightarrow> real list" where
  "cumsum_from a [] = []"
| "cumsum_from a (x # xs) = (a + x) # cumsum_from (a + x) xs"

definition cumsum :: "real list \<Rightarrow> real list" where
  "cumsum xs = cumsum_from 0 xs"

text \<open>\<open>a[-1] = v\<close>, which raises IndexError on an empty array.\<close>

definition set_last :: "real list \<Rightarrow> real \<Rightarrow> error + real list" where
  "set_last a v = (if a = [] then Inl IndexError else Inr (butlast a @ [v]))"

text \<open>
  \<open>np.searchsorted(a, v)\<close> (side left) is numpy's binary search, one key of \<open>v\<close> after
  the other.  \<open>bisect\<close> is its inner loop on the window \<open>[min_idx, max_idx)\<close>:
  \<^verbatim>\<open>
      while (min_idx < max_idx) {
          mid_idx = min_idx + ((max_idx - min_idx) >> 1);
          if (cmp(arr[mid_idx], key_val)) min_idx = mid_idx + 1;
          else max_idx = mid_idx;
      }
  \<close>
  and \<open>binsearch\<close> the loop over the keys, which starts each search from the window the
  key before left:
  \<^verbatim>\<open>
      if (cmp(last_key_val, key_val)) max_idx = arr_len;
      else { min_idx = 0; max_idx = (max_idx < arr_len) ? (max_idx + 1) : arr_len; }
      last_key_val = key_val;
      ... the inner loop ...
      *ret = min_idx;
  \<close>
  For an ascending array the result is the index of the first entry not below the key;
  for any other array it is what this search returns.
\<close>

function bisect :: "('a \<Rightarrow> 'a \<Rightarrow> bool) \<Rightarrow> 'a list \<Rightarrow> 'a \<Rightarrow> nat \<Rightarrow> nat \<Rightarrow> nat" where
  "bisect cmp arr key_val min_idx max_idx =
     (if min_idx < max_idx then
        (let mid_idx = min_idx + (max_idx - min_idx) div 2
         in if cmp (arr ! mid_idx) key_val
            then bisect cmp arr key_val (mid_idx + 1) max_idx
            else bisect cmp arr key_val min_idx mid_idx)
      else min_idx)"
  by pat_completeness auto
termination
  by (relation "measure (\<lambda>(cmp, arr, key_val, min_idx, max_idx). max_idx - min_idx)") auto

declare bisect.simps [simp del]

fun binsearch :: "('a \<Rightarrow> 'a \<Rightarrow> bool) \<Rightarrow> 'a list \<Rightarrow> 'a list \<Rightarrow> nat \<Rightarrow> nat \<Rightarrow> 'a \<Rightarrow> nat list" where
  "binsearch cmp arr [] min_idx max_idx last_key_val = []"
| "binsearch cmp arr (key_val # keys) min_idx max_idx last_key_val =
     (let min_idx1 = (if cmp last_key_val key_val then min_idx else 0);
          max_idx1 = (if cmp last_key_val key_val then length arr
                      else if max_idx < length arr then max_idx + 1 else length arr);
          r = bisect cmp arr key_val min_idx1 max_idx1
      in r # binsearch cmp arr keys r r key_val)"

definition searchsorted :: "real list \<Rightarrow> real list \<Rightarrow> nat list" where
  "searchsorted a v =
     (case v of [] \<Rightarrow> [] | key_val # keys \<Rightarrow> binsearch (<) a v 0 (length a) key_val)"

text \<open>
  \<open>a[indexes]\<close> with an array of integers: a negative index counts from the end, an
  index outside \<open>-len(a) .. len(a)-1\<close> raises IndexError.
\<close>

definition take_rows :: "'a list \<Rightarrow> int list \<Rightarrow> error + 'a list" where
  "take_rows a indexes =
     (let n = int (length a)
      in if list_all (\<lambda>i. - n \<le> i \<and> i < n) indexes
         then Inr (map (\<lambda>i. a ! nat (if i < 0 then i + n else i)) indexes)
         else Inl IndexError)"

text \<open>
  \<open>a[:] = b\<close>: \<open>b\<close> has the length of \<open>a\<close>, or length 1 and is broadcast; any other
  length raises ValueError.
\<close>

definition assign_all :: "'a list \<Rightarrow> 'a list \<Rightarrow> error + 'a list" where
  "assign_all a b =
     (if length b = length a then Inr b
      else if length b = 1 then Inr (replicate (length a) (hd b))
      else Inl ShapeError)"

text \<open>
  The three lines every resampler ends with, \<open>d\<close> being \<open>N\<close> or \<open>len(self.weights)\<close>:
  \<^verbatim>\<open>
      self.particles[:] = self.particles[indexes]
      self.weights[:] = self.weights[indexes]
      self.weights.fill(1.0 / d)
  \<close>
  \<open>1.0 / d\<close> raises ZeroDivisionError when \<open>d\<close> is 0.
\<close>

definition resample_with ::
  "ParticleFilter \<Rightarrow> int list \<Rightarrow> (ParticleFilter \<Rightarrow> nat) \<Rightarrow> error + ParticleFilter" where
  "resample_with pf indexes d =
     (case take_rows (self_particles pf) indexes of
        Inl e \<Rightarrow> Inl e
      | Inr rows \<Rightarrow>
          (case assign_all (self_particles pf) rows of
             Inl e \<Rightarrow> Inl e
           | Inr ps \<Rightarrow>
               (case take_rows (self_weights pf) indexes of
                  Inl e \<Rightarrow> Inl e
                | Inr wrows \<Rightarrow>
                    (case assign_all (self_weights pf) wrows of
                       Inl e \<Rightarrow> Inl e
                     | Inr ws \<Rightarrow>
                         if d pf = 0 then Inl ZeroDivisionError
                         else Inr (pf\<lparr>self_particles := ps,
                                      self_weights := replicate (length ws) (1 / real (d pf))\<rparr>)))))"

text \<open>
  \<^verbatim>\<open>
  def resample_from_index(self, indexes):
      self.particles[:] = self.particles[indexes]
      self.weights[:] = self.weights[indexes]
      self.weights.fill(1.0 / len(self.weights))
  \<close>
\<close>

definition resample_from_index :: "ParticleFilter \<Rightarrow> int list \<Rightarrow> error + ParticleFilter" where
  "resample_from_index pf indexes = resample_with pf indexes (\<lambda>p. length (self_weights p))"

text \<open>
  \<^verbatim>\<open>
  def multinomial_resample(self):
      N = self.N
      cumulative_sum = np.cumsum(self.weights)
      cumulative_sum[-1] = 1. # avoid round-off error
      indexes = np.searchsorted(cumulative_sum, rand(len(self.weights)))
      self.particles[:] = self.particles[indexes]
      self.weights[:] = self.weights[indexes]
      self.weights.fill(1.0 / N)
  \<close>
\<close>

definition multinomial_resample :: "ParticleFilter \<Rightarrow> (nat \<Rightarrow> real) \<Rightarrow> error + ParticleFilter" where
  "multinomial_resample pf g =
     (case set_last (cumsum (self_weights pf)) 1 of
        Inl e \<Rightarrow> Inl e
      | Inr cumulative_sum \<Rightarrow>
          let indexes = searchsorted cumulative_sum (rand g (length (self_weights pf)))
          in resample_with pf (map int indexes) self_N)"

text \<open>
  A float64 value with the values a numpy division by zero leaves: \<open>x / 0.0\<close> is \<open>inf\<close>
  for \<open>x > 0\<close>, \<open>-inf\<close> for \<open>x < 0\<close> and \<open>nan\<close> for \<open>x = 0\<close>, with a warning and no
  exception.  Sums with them follow IEEE 754, and numpy's searches order \<open>nan\<close> after
  every other value (its comparison is \<open>a < b || (b != b && a == a)\<close>).
\<close>

datatype npfloat = Fin real | PInf | NInf | NaN

definition divide_np :: "real \<Rightarrow> real \<Rightarrow> npfloat" where
  "divide_np x s =
     (if s \<noteq> 0 then Fin (x / s) else if 0 < x then PInf else if x < 0 then NInf else NaN)"

fun add_np :: "npfloat \<Rightarrow> npfloat \<Rightarrow> npfloat" where
  "add_np (Fin x) (Fin y) = Fin (x + y)"
| "add_np NaN b = NaN"
| "add_np a NaN = NaN"
| "add_np PInf NInf = NaN"
| "add_np NInf PInf = NaN"
| "add_np PInf b = PInf"
| "add_np a PInf = PInf"
| "add_np NInf b = NInf"
| "add_np a NInf = NInf"

fun less_np :: "npfloat \<Rightarrow> npfloat \<Rightarrow> bool" where
  "less_np (Fin x) (Fin y) \<longleftrightarrow> x < y"
| "less_np NaN b \<longleftrightarrow> False"
| "less_np a NaN \<longleftrightarrow> True"
| "less_np a NInf \<longleftrightarrow> False"
| "less_np NInf b \<longleftrightarrow> True"
| "less_np PInf b \<longleftrightarrow> False"
| "less_np a PInf \<longleftrightarrow> True"

fun cumsum_np_from :: "npfloat \<Rightarrow> npfloat list \<Rightarrow> npfloat list" where
  "cumsum_np_from a [] = []"
| "cumsum_np_from a (x # xs) = add_np a x # cumsum_np_from (add_np a x) xs"

definition cumsum_np :: "npfloat list \<Rightarrow> npfloat list" where
  "cumsum_np xs = (case xs of [] \<Rightarrow> [] | x # rest \<Rightarrow> x # cumsum_np_from x rest)"

definition set_last_np :: "npfloat list \<Rightarrow> npfloat \<Rightarrow> error + npfloat list" where
  "set_last_np a v = (if a = [] then Inl IndexError else Inr (butlast a @ [v]))"

definition searchsorted_np :: "npfloat list \<Rightarrow> real list \<Rightarrow> nat list" where
  "searchsorted_np a v =
     (case v of [] \<Rightarrow> []
      | key_val # keys \<Rightarrow> binsearch less_np a (map Fin v) 0 (length a) (Fin key_val))"

text \<open>
  \<open>astype(int)\<close> drops the fraction of a float; \<open>range(c)\<close> is empty for \<open>c \<le> 0\<close>.
\<close>

definition astype_int :: "real \<Rightarrow> int" where
  "astype_int x = (if 0 \<le> x then \<lfloor>x\<rfloor> else \<lceil>x\<rceil>)"

text \<open>
  The copy loops of \<open>residual_resample\<close>, on the pair of \<open>indexes\<close> and \<open>k\<close>:
  \<^verbatim>\<open>
      k = 0
      for i in range(N):
          for _ in range(num_copies[i]): # make n copies
              indexes[k] = i
              k += 1
  \<close>
  \<open>indexes[k] = i\<close> raises IndexError once \<open>k\<close> has reached the length of \<open>indexes\<close>.
\<close>

fun make_copies :: "nat \<Rightarrow> nat \<Rightarrow> nat list \<times> nat \<Rightarrow> error + nat list \<times> nat" where
  "make_copies i 0 (indexes, k) = Inr (indexes, k)"
| "make_copies i (Suc c) (indexes, k) =
     (if k < length indexes then make_copies i c (indexes[k := i], Suc k)
      else Inl IndexError)"

fun copy_loop :: "nat list \<Rightarrow> int list \<Rightarrow> nat list \<times> nat \<Rightarrow> error + nat list \<times> nat" where
  "copy_loop [] num_copies st = Inr st"
| "copy_loop (i # is) num_copies st =
     (if i < length num_copies
      then (case make_copies i (nat (num_copies ! i)) st of
              Inl e \<Rightarrow> Inl e
            | Inr st' \<Rightarrow> copy_loop is num_copies st')
      else Inl IndexError)"

text \<open>
  \<^verbatim>\<open>
  def residual_resample(self):
      N = self.N
      indexes = np.zeros(self.N, 'i')
      num_copies = (N*np.asarray(self.weights)).astype(int)
      k = 0
      for i in range(N): ...
      residual = self.weights - num_copies     # get fractional part
      residual /= sum(residual)     # normalize
      cumulative_sum = np.cumsum(residual)
      cumulative_sum[-1] = 1. # ensures sum is exactly one
      indexes[k:N] = np.searchsorted(cumulative_sum, rand(N-k))
      self.particles[:] = self.particles[indexes]
      self.weights[:] = self.weights[indexes]
      self.weights.fill(1.0 / len(self.weights))
  \<close>
  \<open>residual_indexes\<close> is the array \<open>indexes\<close> before the last three lines.  When the
  residuals sum to zero, \<open>residual /= sum(residual)\<close> divides by zero and the code goes
  on with the infinities and NaNs this leaves.
\<close>

definition residual_indexes :: "nat \<Rightarrow> real list \<Rightarrow> (nat \<Rightarrow> real) \<Rightarrow> error + nat list" where
  "residual_indexes n weights g =
     (let num_copies = map (\<lambda>w. astype_int (real n * w)) weights
      in case copy_loop [0..<n] num_copies (replicate n 0, 0) of
           Inl e \<Rightarrow> Inl e
         | Inr (indexes, k) \<Rightarrow>
             let residual = map2 (\<lambda>w c. w - real_of_int c) weights num_copies;
                 s = sum_list residual
             in case set_last_np (cumsum_np (map (\<lambda>r. divide_np r s) residual)) (Fin 1) of
                  Inl e \<Rightarrow> Inl e
                | Inr cumulative_sum \<Rightarrow>
                    Inr (take k indexes @ searchsorted_np cumulative_sum (rand g (n - k))))"

definition residual_resample :: "ParticleFilter \<Rightarrow> (nat \<Rightarrow> real) \<Rightarrow> error + ParticleFilter" where
  "residual_resample pf g =
     (case residual_indexes (self_N pf) (self_weights pf) g of
        Inl e \<Rightarrow> Inl e
      | Inr indexes \<Rightarrow> resample_with pf (map int indexes) (\<lambda>p. length (self_weights p)))"

text \<open>
  The walk the stratified and the systematic resampler share, word for word:
  \<^verbatim>\<open>
      i, j = 0, 0
      while i < N:
          if positions[i] < cumulative_sum[j]:
              indexes[i] = j
              i += 1
          else:
              j += 1
  \<close>
  \<open>positions\<close> and \<open>indexes\<close> have length \<open>N\<close>; \<open>cumulative_sum[j]\<close> raises IndexError
  once \<open>j\<close> has reached the length of \<open>cumulative_sum\<close>.
\<close>

function walk :: "nat \<Rightarrow> real list \<Rightarrow> real list \<Rightarrow> nat list \<Rightarrow> nat \<Rightarrow> nat \<Rightarrow> error + nat list" where
  "walk n positions cumulative_sum indexes i j =
     (if i < n then
        (if length positions \<le> i \<or> length cumulative_sum \<le> j then Inl IndexError
         else if positions ! i < cumulative_sum ! j
              then (if i < length indexes
                    then walk n positions cumulative_sum (indexes[i := j]) (Suc i) j
                    else Inl IndexError)
              else walk n positions cumulative_sum indexes i (Suc j))
      else Inr indexes)"
  by pat_completeness auto
termination
  by (relation "measure (\<lambda>(n, positions, cumulative_sum, indexes, i, j).
        (n - i) + (length cumulative_sum - j))") auto

declare walk.simps [simp del]

text \<open>
  \<^verbatim>\<open>
  def stratified_resample(self):
      N = self.N
      positions = (rand(N) + range(N)) / N
      indexes = np.zeros(N, 'i')
      cumulative_sum = np.cumsum(self.weights)
      i, j = 0, 0
      while i < N: ...
      self.particles[:] = self.particles[indexes]
      self.weights[:] = self.weights[indexes]
      self.weights.fill(1.0 / len(self.weights))
  \<close>
  The positions and the cumulative sum are the exact ones; \<open>stratified_positions_f64\<close>
  below are the positions with float64 rounding.
\<close>

definition stratified_indexes :: "nat \<Rightarrow> real list \<Rightarrow> (nat \<Rightarrow> real) \<Rightarrow> error + nat list" where
  "stratified_indexes n weights g =
     (let positions = map2 (\<lambda>r i. (r + real i) / real n) (rand g n) [0..<n]
      in walk n positions (cumsum weights) (replicate n 0) 0 0)"

definition stratified_resample :: "ParticleFilter \<Rightarrow> (nat \<Rightarrow> real) \<Rightarrow> error + ParticleFilter" where
  "stratified_resample pf g =
     (case stratified_indexes (self_N pf) (self_weights pf) g of
        Inl e \<Rightarrow> Inl e
      | Inr indexes \<Rightarrow> resample_with pf (map int indexes) (\<lambda>p. length (self_weights p)))"

text \<open>
  \<^verbatim>\<open>
  def systematic_resample(self):
      N = self.N
      positions = (np.arange(N) + rand()) / N
      indexes = np.zeros(N, 'i')
      cumulative_sum = np.cumsum(self.weights)
      i, j = 0, 0
      while i < N: ...
      self.particles[:] = self.particles[indexes]
      self.weights[:] = self.weights[indexes]
      self.weights.fill(1.0 / len(self.weights))
  \<close>
  \<open>u\<close> is the one draw \<open>rand()\<close>.  The positions and the cumulative sum are the
  exact ones; \<open>systematic_positions_f64\<close> below are the positions with float64
  rounding.
\<close>

definition systematic_indexes :: "nat \<Rightarrow> real list \<Rightarrow> real \<Rightarrow> error + nat list" where
  "systematic_indexes n weights u =
     (let positions = map (\<lambda>i. (real i + u) / real n) [0..<n]
      in walk n positions (cumsum weights) (replicate n 0) 0 0)"

definition systematic_resample :: "ParticleFilter \<Rightarrow> real \<Rightarrow> error + ParticleFilter" where
  "systematic_resample pf u =
     (case systematic_indexes (self_N pf) (self_weights pf) u of
        Inl e \<Rightarrow> Inl e
      | Inr indexes \<Rightarrow> resample_with pf (map int indexes) (\<lambda>p. length (self_weights p)))"

subsection \<open>float64 arithmetic\<close>

text \<open>
  Where a claim turns on rounding, the operation is also given as float64 computes it.
  A float64 operation returns the exact result rounded to the nearest float64, ties to
  the even significand (IEEE 754).  \<open>round64\<close> is this rounding for a result below
  \<open>2 ^ 1024\<close> in magnitude: the quantum is \<open>2 ^ (e - 52)\<close> for \<open>2 ^ e \<le> |x| < 2 ^ (e + 1)\<close>,
  and \<open>2 ^ -1074\<close> below \<open>2 ^ -1022\<close>.  \<open>f64\<close> adds the overflow to an infinity.  Signed
  zeros are not told apart.
\<close>

definition pow2 :: "int \<Rightarrow> real" where
  "pow2 e = (if 0 \<le> e then 2 ^ nat e else 1 / 2 ^ nat (- e))"

definition rne :: "real \<Rightarrow> int" where
  "rne y =
     (let f = \<lfloor>y\<rfloor>; d = y - of_int f
      in if d < 1 / 2 then f else if 1 / 2 < d then f + 1 else if even f then f else f + 1)"

definition round64 :: "real \<Rightarrow> real" where
  "round64 x =
     (if x = 0 then 0
      else
        let e = max \<lfloor>log 2 \<bar>x\<bar>\<rfloor> (- 1022);
            q = pow2 (e - 52)
        in of_int (rne (x / q)) * q)"

definition f64 :: "real \<Rightarrow> npfloat" where
  "f64 x =
     (let r = round64 x
      in if 2 ^ 1024 \<le> r then PInf else if r \<le> - (2 ^ 1024) then NInf else Fin r)"









text \<open>
  The positions of the stratified and the systematic resampler as float64 computes
  them: the sum is rounded, then the quotient.
\<close>

definition stratified_positions_f64 :: "nat \<Rightarrow> (nat \<Rightarrow> real) \<Rightarrow> real list" where
  "stratified_positions_f64 n g =
     map2 (\<lambda>r i. round64 (round64 (r + real i) / real n)) (rand g n) [0..<n]"

definition systematic_positions_f64 :: "nat \<Rightarrow> real \<Rightarrow> real list" where
  "systematic_positions_f64 n u = map (\<lambda>i. round64 (round64 (real i + u) / real n)) [0..<n]"

text \<open>
  The state every resampler is to leave behind a filter \<open>pf\<close> of \<open>N\<close> particles: still
  \<open>N\<close> particles, and the weight vector \<open>N\<close> times \<open>1/N\<close>.
\<close>

definition resampled :: "ParticleFilter \<Rightarrow> ParticleFilter \<Rightarrow> bool" where
  "resampled pf pf' \<longleftrightarrow>
     self_N pf' = self_N pf \<and>
     length (self_particles pf') = self_N pf \<and>
     self_weights pf' = replicate (self_N pf) (1 / real (self_N pf))"

text \<open>
  The weights the fill of the residual resampler is described to draw from, for
  comparison: what is left of \<open>N * w\<close> after its \<open>floor (N * w)\<close> copies.
\<close>

definition fractional_weights :: "nat \<Rightarrow> real list \<Rightarrow> real list" where
  "fractional_weights n weights = map (\<lambda>w. real n * w - of_int \<lfloor>real n * w\<rfloor>) weights"

text \<open>A filter of two particles with unequal weights, for the worked examples.\<close>

definition two_particles :: ParticleFilter where
  "two_particles =
     \<lparr> self_dt = 1, self_N = 2, self_landmarks = [], self_robot = (0, 0, 0),
       self_weights = [3 / 4, 1 / 4], self_Q = (1, 1, 1), self_R = (1, 1),
       self_particles = [(0, 0, 0), (1, 0, 0)] \<rparr>"

section \<open>Properties\<close>

subsection \<open>Angle normalizer\<close>

lemma pymod_range:
  assumes "0 < m"
  shows "0 \<le> pymod d m" and "pymod d m < m"
proof -
  have le: "of_int \<lfloor>d / m\<rfloor> \<le> d / m" by (rule of_int_floor_le)
  have lt: "d / m < of_int \<lfloor>d / m\<rfloor> + 1" by linarith
  from le assms have "m * of_int \<lfloor>d / m\<rfloor> \<le> m * (d / m)"
    by (intro mult_left_mono) simp_all
  with assms have "m * of_int \<lfloor>d / m\<rfloor> \<le> d" by simp
  then show "0 \<le> pymod d m" by (simp add: pymod_def)
  from lt assms have "m * (d / m) < m * (of_int \<lfloor>d / m\<rfloor> + 1)"
    by (intro mult_strict_left_mono) simp_all
  with assms have "d < (of_int \<lfloor>d / m\<rfloor> + 1) * m" by (simp add: mult.commute)
  then show "pymod d m < m" by (simp add: pymod_def algebra_simps)
qed

lemma pymod_small:
  assumes "0 \<le> d" and "d < m"
  shows "pymod d m = d"
proof -
  from assms have "0 < m" by linarith
  with assms have "0 \<le> d / m" and "d / m < 1" by simp_all
  then have "\<lfloor>d / m\<rfloor> = 0" by linarith
  then show ?thesis by (simp add: pymod_def)
qed

lemma pymod_negative:
  assumes "- m \<le> d" and "d < 0"
  shows "pymod d m = d + m"
proof -
  from assms have m: "0 < m" by linarith
  with assms have "- 1 \<le> d / m" and "d / m < 0"
    by (simp_all add: pos_le_divide_eq divide_neg_pos)
  then have "\<lfloor>d / m\<rfloor> = - 1" by linarith
  then show ?thesis by (simp add: pymod_def)
qed

lemma wrapToPi_range: "- pi < wrapToPi d \<and> wrapToPi d \<le> pi"
proof -
  have m: "(0::real) < 2 * pi" by simp
  note r = pymod_range [OF m, of d]
  show ?thesis
    using r pi_gt_zero by (auto simp: wrapToPi_def Let_def)
qed

lemma wrapToPi_fixed:
  assumes "- pi < r" and "r \<le> pi"
  shows "wrapToPi r = r"
proof (cases "0 \<le> r")
  case True
  with assms pi_gt_zero have "pymod r (2 * pi) = r"
    by (intro pymod_small) linarith+
  with assms show ?thesis by (simp add: wrapToPi_def Let_def)
next
  case False
  with assms pi_gt_zero have "pymod r (2 * pi) = r + 2 * pi"
    by (intro pymod_negative) linarith+
  with assms False show ?thesis by (simp add: wrapToPi_def Let_def)
qed

text \<open>
  C5.  For every real angle \<open>\<theta>\<close> the normalizer returns a value in the half-open
  interval \<open>(-\<pi>, \<pi>]\<close>, and normalizing a second time changes nothing.
\<close>

theorem wrapToPi_range_idempotent:
  "- pi < wrapToPi \<theta> \<and> wrapToPi \<theta> \<le> pi \<and> wrapToPi (wrapToPi \<theta>) = wrapToPi \<theta>"
  using wrapToPi_range [of \<theta>] wrapToPi_fixed [of "wrapToPi \<theta>"] by simp

subsection \<open>Degeneracy monitor\<close>












subsection \<open>Construction\<close>

lemma length_set_col2: "length (set_col2 ps v) = min (length ps) (length v)"
  by (simp add: set_col2_def)

lemma length_col2: "length (col2 ps) = length ps"
  by (simp add: col2_def)

lemma col2_set_col2:
  "length v = length ps \<Longrightarrow> col2 (set_col2 ps v) = v"
proof (induction ps arbitrary: v)
  case Nil
  then show ?case by (simp add: col2_def set_col2_def)
next
  case (Cons p ps)
  then obtain a v' where v: "v = a # v'" by (cases v) auto
  with Cons.prems have "length v' = length ps" by simp
  from Cons.IH [OF this] v show ?case
    by (cases p) (simp add: col2_def set_col2_def)
qed

lemma col2_zip:
  assumes "length a = length c" and "length b = length c"
  shows "col2 (zip a (zip b c)) = c"
proof -
  have "col2 (zip a (zip b c)) = map snd (map snd (zip a (zip b c)))"
    by (simp add: col2_def split_def)
  also have "\<dots> = map snd (zip b c)" using assms by simp
  also have "\<dots> = c" using assms by simp
  finally show ?thesis .
qed

lemma length_create_gaussian_particles:
  "length (create_gaussian_particles mean std n g0 g1 g2) = n"
  by (cases mean; cases std)
     (simp add: create_gaussian_particles_def Let_def length_set_col2 length_col2 randn_def)

lemma col2_create_gaussian_particles:
  "col2 (create_gaussian_particles (m0, m1, m2) (s0, s1, s2) n g0 g1 g2)
   = map (\<lambda>i. wrapToPi (m2 + g2 i * s2)) [0..<n]"
  by (simp add: create_gaussian_particles_def Let_def col2_set_col2 length_col2 randn_def
      col2_zip o_def)

text \<open>
  C10.  Right after construction with \<open>n\<close> particles, \<open>n > 0\<close>, the weight vector has
  length \<open>n\<close> and every entry is \<open>1/n\<close>, the particle set has \<open>n\<close> triples
  \<open>(x, y, \<theta>)\<close>, and every heading lies in \<open>(-\<pi>, \<pi>]\<close>.
\<close>

theorem init_state:
  assumes "0 < n"
  shows "length (self_weights (init n landmarks q r robot dt g0 g1 g2)) = n \<and>
         (\<forall>w\<in>set (self_weights (init n landmarks q r robot dt g0 g1 g2)). w = 1 / real n) \<and>
         length (self_particles (init n landmarks q r robot dt g0 g1 g2)) = n \<and>
         (\<forall>p\<in>set (self_particles (init n landmarks q r robot dt g0 g1 g2)).
            case p of (x, y, \<theta>) \<Rightarrow> - pi < \<theta> \<and> \<theta> \<le> pi) \<and>
         self_N (init n landmarks q r robot dt g0 g1 g2) = n"
proof -
  obtain m0 m1 m2 where robot: "robot = (m0, m1, m2)" by (cases robot) auto
  let ?ps = "create_gaussian_particles robot (1 / 10, 1 / 10, 1 / 10) n g0 g1 g2"
  have "\<forall>t\<in>set (col2 ?ps). - pi < t \<and> t \<le> pi"
    unfolding robot col2_create_gaussian_particles using wrapToPi_range by auto
  then have "\<forall>p\<in>set ?ps. case p of (x, y, \<theta>) \<Rightarrow> - pi < \<theta> \<and> \<theta> \<le> pi"
    by (auto simp: col2_def)
  then show ?thesis
    by (simp add: init_def length_create_gaussian_particles)
qed

theorem init_state_witness:
  "self_weights (init 2 [] (0, 0, 0) (1, 1) (0, 0, 0) 1 (\<lambda>i. 0) (\<lambda>i. 0) (\<lambda>i. 0)) = [1 / 2, 1 / 2] \<and>
   length (self_particles (init 2 [] (0, 0, 0) (1, 1) (0, 0, 0) 1 (\<lambda>i. 0) (\<lambda>i. 0) (\<lambda>i. 0))) = 2 \<and>
   list_all (\<lambda>(x, y, \<theta>). - pi < \<theta> \<and> \<theta> \<le> pi)
     (self_particles (init 2 [] (0, 0, 0) (1, 1) (0, 0, 0) 1 (\<lambda>i. 0) (\<lambda>i. 0) (\<lambda>i. 0)))"
proof -
  have n: "(0::nat) < 2" by simp
  from init_state [OF n, of "[]" "(0, 0, 0)" "(1, 1)" "(0, 0, 0)" 1 "\<lambda>i. 0" "\<lambda>i. 0" "\<lambda>i. 0"]
  show ?thesis
    by (simp add: init_def list_all_iff numeral_2_eq_2)
qed

subsection \<open>Motion model\<close>

lemma length_set_col0: "length (set_col0 ps v) = min (length ps) (length v)"
  by (simp add: set_col0_def)

lemma length_set_col1: "length (set_col1 ps v) = min (length ps) (length v)"
  by (simp add: set_col1_def)

lemma length_col0: "length (col0 ps) = length ps"
  by (simp add: col0_def)

lemma length_col1: "length (col1 ps) = length ps"
  by (simp add: col1_def)

lemma nth_set_col0:
  "i < length ps \<Longrightarrow> i < length v \<Longrightarrow>
   set_col0 ps v ! i = (v ! i, fst (snd (ps ! i)), snd (snd (ps ! i)))"
  by (simp add: set_col0_def split_def)

lemma nth_set_col1:
  "i < length ps \<Longrightarrow> i < length v \<Longrightarrow>
   set_col1 ps v ! i = (fst (ps ! i), v ! i, snd (snd (ps ! i)))"
  by (simp add: set_col1_def split_def)

lemma nth_set_col2:
  "i < length ps \<Longrightarrow> i < length v \<Longrightarrow>
   set_col2 ps v ! i = (fst (ps ! i), fst (snd (ps ! i)), v ! i)"
  by (simp add: set_col2_def split_def)

lemma nth_col0: "i < length ps \<Longrightarrow> col0 ps ! i = fst (ps ! i)"
  by (simp add: col0_def split_def)

lemma nth_col1: "i < length ps \<Longrightarrow> col1 ps ! i = fst (snd (ps ! i))"
  by (simp add: col1_def split_def)

lemma nth_col2: "i < length ps \<Longrightarrow> col2 ps ! i = snd (snd (ps ! i))"
  by (simp add: col2_def split_def)

lemma length_randn: "length (randn g n) = n"
  by (simp add: randn_def)

lemma nth_randn: "i < n \<Longrightarrow> randn g n ! i = g i"
  by (simp add: randn_def)

lemmas col_simps =
  length_set_col0 length_set_col1 length_set_col2 length_col0 length_col1 length_col2
  nth_set_col0 nth_set_col1 nth_set_col2 nth_col0 nth_col1 nth_col2 length_randn nth_randn

text \<open>
  C7.  \<open>predict\<close> moves particle \<open>i\<close> from \<open>(x, y, \<theta>)\<close> to
  \<open>(x + cos \<theta> * (u0 + n\<^sub>x) * dt, y + sin \<theta> * (u0 + n\<^sub>y) * dt, wrapToPi (\<theta> + dt * (u1 + n\<^sub>\<theta>)))\<close>:
  both position updates use the heading from before the call and the same speed \<open>u0\<close>,
  and the three noises are the \<open>i\<close>-th draws of three separate \<open>randn(N)\<close> calls scaled
  by \<open>Q[0]\<close>, \<open>Q[1]\<close>, \<open>Q[2]\<close>.  Every other field of the filter is left as it was.
\<close>

theorem predict_particle:
  assumes ok: "shapes_ok pf" and i: "i < self_N pf"
    and p: "self_particles pf ! i = (x, y, \<theta>)"
    and q: "self_Q pf = (q0, q1, q2)"
  shows "\<exists>pf'. predict pf (u0, u1) dt g0 g1 g2 = Inr pf' \<and>
           self_particles pf' ! i =
             (x + cos \<theta> * (u0 + g0 i * q0) * dt,
              y + sin \<theta> * (u0 + g1 i * q1) * dt,
              wrapToPi (\<theta> + dt * (u1 + g2 i * q2))) \<and>
           length (self_particles pf') = self_N pf \<and>
           pf' = pf\<lparr>self_particles := self_particles pf'\<rparr>"
proof -
  from ok have len: "length (self_particles pf) = self_N pf" by (simp add: shapes_ok_def)
  with i have il: "i < length (self_particles pf)" by simp
  show ?thesis
    using ok i il len p q
    by (simp add: predict_def Let_def col_simps)
qed

theorem predict_particle_witness:
  "predict \<lparr> self_dt = 1, self_N = 1, self_landmarks = [], self_robot = (0, 0, 0),
             self_weights = [1], self_Q = (1, 1, 1), self_R = (1, 1),
             self_particles = [(0, 0, 0)] \<rparr> (1, 0) 1 (\<lambda>i. 0) (\<lambda>i. 0) (\<lambda>i. 0)
   = Inr \<lparr> self_dt = 1, self_N = 1, self_landmarks = [], self_robot = (0, 0, 0),
           self_weights = [1], self_Q = (1, 1, 1), self_R = (1, 1),
           self_particles = [(1, 0, 0)] \<rparr>"
proof -
  let ?pf = "\<lparr> self_dt = 1, self_N = 1, self_landmarks = [], self_robot = (0, 0, 0),
             self_weights = [1], self_Q = (1, 1, 1), self_R = (1 :: real, 1 :: real),
             self_particles = [(0, 0, 0)] \<rparr>"
  have ok: "shapes_ok ?pf" by (simp add: shapes_ok_def)
  have i: "0 < self_N ?pf" by simp
  have p: "self_particles ?pf ! 0 = (0, 0, 0)" by simp
  have q: "self_Q ?pf = (1, 1, 1)" by simp
  from predict_particle [OF ok i p q, of 1 0 1 "\<lambda>i. 0" "\<lambda>i. 0" "\<lambda>i. 0"]
  obtain pf' where r: "predict ?pf (1, 0) 1 (\<lambda>i. 0) (\<lambda>i. 0) (\<lambda>i. 0) = Inr pf'"
    and v: "self_particles pf' ! 0 = (1, 0, wrapToPi 0)"
    and l: "length (self_particles pf') = 1"
    and e: "pf' = ?pf\<lparr>self_particles := self_particles pf'\<rparr>"
    by auto
  have w: "wrapToPi 0 = 0" by (simp add: wrapToPi_def pymod_def)
  from l obtain a where a: "self_particles pf' = [a]"
    by (cases "self_particles pf'") auto
  with v w have "self_particles pf' = [(1, 0, 0)]" by simp
  with e have "pf' = ?pf\<lparr>self_particles := [(1, 0, 0)]\<rparr>" by simp
  with r show ?thesis by simp
qed

subsection \<open>Measurement update\<close>

lemma weight_floor_pos: "0 < weight_floor"
  by (simp add: weight_floor_def)

lemma sum_list_divide:
  fixes xs :: "real list"
  shows "sum_list (map (\<lambda>w. w / s) xs) = sum_list xs / s"
  by (induction xs) (simp_all add: add_divide_distrib)

text \<open>
  The last two lines of \<open>update\<close> in exact arithmetic: when the loop over the landmarks
  has returned with state \<open>pf1\<close> and the sum \<open>s\<close> of the floored weights is not zero,
  \<open>update\<close> returns; the weights it leaves are the weights of \<open>pf1\<close>, each with the
  floor \<open>1e-300\<close> added and then divided by \<open>s\<close>, and they sum to 1.
\<close>

theorem update_normalizes:
  assumes "update_loop pf z [0..<length (self_landmarks pf)] = Inr pf1"
    and "s = sum_list (map (\<lambda>w. w + 1 / 10 ^ 300) (self_weights pf1))"
    and "s \<noteq> 0"
  shows "\<exists>pf'. update pf z = Inr pf' \<and>
           self_weights pf' = map (\<lambda>w. (w + 1 / 10 ^ 300) / s) (self_weights pf1) \<and>
           sum_list (self_weights pf') = 1 \<and>
           \<bar>sum_list (self_weights pf') - 1\<bar> \<le> 1 / 10 ^ 9"
proof -
  let ?w1 = "map (\<lambda>w. w + weight_floor) (self_weights pf1)"
  from assms(2) have s: "s = sum_list ?w1" by (simp add: weight_floor_def)
  with assms(1,3) have u: "update pf z = Inr (pf1\<lparr>self_weights := map (\<lambda>w. w / s) ?w1\<rparr>)"
    by (simp add: update_def Let_def)
  have "sum_list (map (\<lambda>w. w / s) ?w1) = sum_list ?w1 / s" by (rule sum_list_divide)
  with s assms(3) have one: "sum_list (map (\<lambda>w. w / s) ?w1) = 1" by simp
  have m: "map (\<lambda>w. w / s) ?w1 = map (\<lambda>w. (w + 1 / 10 ^ 300) / s) (self_weights pf1)"
    by (simp add: weight_floor_def o_def)
  from u one m show ?thesis by simp
qed

lemma wrapToPi_zero: "wrapToPi 0 = 0"
  by (simp add: wrapToPi_def pymod_def)

lemma two_pi_powr: "(2 * pi) powr (2 / 2) = 2 * pi"
  by simp

theorem update_normalizes_witness:
  "update_loop \<lparr> self_dt = 1, self_N = 1, self_landmarks = [(0, 0)], self_robot = (0, 0, 0),
                 self_weights = [1], self_Q = (1, 1, 1), self_R = (1, 0),
                 self_particles = [(1, 0, 0)] \<rparr> [1] [0..<1]
     = Inr \<lparr> self_dt = 1, self_N = 1, self_landmarks = [(0, 0)], self_robot = (0, 0, 0),
             self_weights = [1 / (2 * pi)], self_Q = (1, 1, 1), self_R = (1, 0),
             self_particles = [(1, 0, 0)] \<rparr> \<and>
   1 / (2 * pi) + 1 / 10 ^ 300 \<noteq> 0 \<and>
   (case update \<lparr> self_dt = 1, self_N = 1, self_landmarks = [(0, 0)], self_robot = (0, 0, 0),
                 self_weights = [1], self_Q = (1, 1, 1), self_R = (1, 0),
                 self_particles = [(1, 0, 0)] \<rparr> [1] of
      Inl e \<Rightarrow> False
    | Inr pf' \<Rightarrow> self_weights pf' = [1])"
proof -
  let ?pf = "\<lparr> self_dt = 1, self_N = 1, self_landmarks = [(0, 0)], self_robot = (0, 0, 0),
                 self_weights = [1], self_Q = (1, 1, 1), self_R = (1, 0),
                 self_particles = [(1, 0, 0)] \<rparr>"
  let ?pf1 = "?pf\<lparr>self_weights := [1 / (2 * pi)]\<rparr>"
  have l: "update_loop ?pf [1] [0..<length (self_landmarks ?pf)] = Inr ?pf1"
    by (simp add: update_landmark_def shapes_ok_def arctan2_def wrapToPiN_def wrapToPi_zero
        normpdf_def two_pi_powr Let_def)
  have pos: "0 < 1 / (2 * pi) + 1 / (10::real) ^ 300" by (intro add_pos_pos) simp_all
  then have nz: "1 / (2 * pi) + 1 / (10::real) ^ 300 \<noteq> 0" by simp
  have s: "1 / (2 * pi) + 1 / 10 ^ 300
           = sum_list (map (\<lambda>w. w + 1 / 10 ^ 300) (self_weights ?pf1))" by simp
  from update_normalizes [OF l s nz] nz
  have "case update ?pf [1] of Inl e \<Rightarrow> False | Inr pf' \<Rightarrow> self_weights pf' = [1]"
    by auto
  with l nz show ?thesis by simp
qed

lemma normpdf_value:
  assumes "std \<noteq> 0"
  shows "normpdf (x0, x1) (mu0, mu1) std
         = Inr (exp (- ((x0 - mu0)\<^sup>2 + (x1 - mu1)\<^sup>2) / (2 * std)) / (2 * pi * \<bar>std\<bar>))"
proof -
  have "(- 1 / 2) * ((x0 - mu0) * (1 / std) * (x0 - mu0) + (x1 - mu1) * (1 / std) * (x1 - mu1))
        = - ((x0 - mu0)\<^sup>2 + (x1 - mu1)\<^sup>2) / (2 * std)"
    using assms by (simp add: power2_eq_square field_simps)
  moreover have "sqrt (std * std) = \<bar>std\<bar>" by simp
  ultimately show ?thesis
    using assms by (simp add: normpdf_def Let_def two_pi_powr)
qed

lemma normpdf_zero: "normpdf x mu 0 = Inl SingularMatrix"
  by (cases x; cases mu) (simp add: normpdf_def)

lemma exact_observation_gap: "exp (- (17 / 100)) / (2 * pi) < 1 / (2 * pi * sqrt (3 / 20))"
proof -
  have "exp (- (17 / 100 :: real)) < 1" by simp
  moreover have "sqrt (3 / 20) < 1" by (simp add: real_sqrt_lt_1_iff)
  moreover have "0 < sqrt (3 / 20 :: real)" by simp
  ultimately have "exp (- (17 / 100 :: real)) * sqrt (3 / 20) < 1"
    by (smt (verit) mult_less_cancel_right2 mult_le_cancel_left1 exp_gt_zero)
  then show ?thesis by (simp add: field_simps)
qed

text \<open>
  C1.  What the code does where the claim asks for the Gaussian density of predicted
  minus observed under the covariance of \<open>R\<close>.  One particle at \<open>(1, 0)\<close> with heading 0,
  one landmark at the origin, \<open>R = (0.5, 0.3)\<close>, weight 1, and the observation
  \<open>(range 1, bearing 0)\<close> that the particle predicts exactly.  The call
  \<open>normpdf(distance[j], self.R, z[0,i])\<close> binds \<open>mu\<close> to \<open>R\<close> and \<open>std\<close> to the observed
  range, so the factor is the density at the prediction \<open>(1, 0)\<close> of a Gaussian centred
  at \<open>(0.5, 0.3)\<close> with covariance \<open>1 * I\<close>, that is \<open>exp (-0.17) / (2\<pi>)\<close>; the density
  the claim describes is \<open>1 / (2\<pi> * sqrt 0.15)\<close> there, which is larger.
\<close>

theorem update_factor_centred_at_R:
  "update_loop \<lparr> self_dt = 1, self_N = 1, self_landmarks = [(0, 0)], self_robot = (0, 0, 0),
                 self_weights = [1], self_Q = (1, 1, 1), self_R = (1 / 2, 3 / 10),
                 self_particles = [(1, 0, 0)] \<rparr> [1, 0] [0..<1]
     = Inr \<lparr> self_dt = 1, self_N = 1, self_landmarks = [(0, 0)], self_robot = (0, 0, 0),
             self_weights = [exp (- (17 / 100)) / (2 * pi)], self_Q = (1, 1, 1),
             self_R = (1 / 2, 3 / 10), self_particles = [(1, 0, 0)] \<rparr> \<and>
   spec_density (1, 0) (1, 0) (1 / 2, 3 / 10) = 1 / (2 * pi * sqrt (3 / 20)) \<and>
   exp (- (17 / 100)) / (2 * pi) < spec_density (1, 0) (1, 0) (1 / 2, 3 / 10)"
proof -
  have a: "update_loop \<lparr> self_dt = 1, self_N = 1, self_landmarks = [(0, 0)],
                 self_robot = (0, 0, 0),
                 self_weights = [1], self_Q = (1, 1, 1), self_R = (1 / 2, 3 / 10),
                 self_particles = [(1, 0, 0)] \<rparr> [1, 0] [0..<1]
     = Inr \<lparr> self_dt = 1, self_N = 1, self_landmarks = [(0, 0)], self_robot = (0, 0, 0),
             self_weights = [exp (- (17 / 100)) / (2 * pi)], self_Q = (1, 1, 1),
             self_R = (1 / 2, 3 / 10), self_particles = [(1, 0, 0)] \<rparr>"
    by (simp add: update_landmark_def shapes_ok_def arctan2_def wrapToPiN_def wrapToPi_zero
        normpdf_value Let_def power2_eq_square)
  have b: "spec_density (1, 0) (1, 0) (1 / 2, 3 / 10) = 1 / (2 * pi * sqrt (3 / 20))"
    by (simp add: spec_density_def)
  from a b exact_observation_gap show ?thesis by simp
qed

lemma arctan2_up: "arctan2 1 0 = pi / 2"
  by (simp add: arctan2_def)

lemma wrapToPi_half_pi: "wrapToPi (pi / 2) = pi / 2"
  by (rule wrapToPi_fixed) (use pi_gt_zero in linarith)+

text \<open>
  C2.  What the code does where the claim asks for landmark \<open>k\<close>'s own
  \<open>(range, bearing)\<close> pair.  One particle at \<open>(1, 0)\<close> with heading 0 and weight 1, two
  landmarks at \<open>(0, 0)\<close> and \<open>(1, -1)\<close>, \<open>R = (0.5, 0.3)\<close>.  \<open>z[0,i]\<close> is entry \<open>i\<close> of the
  flattened observation: the range to landmark 0 for landmark 0 and the bearing to
  landmark 0 for landmark 1.  So the pair \<open>(c, d)\<close> observed for landmark 1 never
  enters the weight, and the observation \<open>[1, 0, 1, \<pi>/2]\<close> that the particle predicts
  exactly makes \<open>np.linalg.inv\<close> raise, its second entry being 0.
\<close>

theorem update_reads_entry_i:
  "update_loop \<lparr> self_dt = 1, self_N = 1, self_landmarks = [(0, 0), (1, - 1)],
                 self_robot = (0, 0, 0),
                 self_weights = [1], self_Q = (1, 1, 1), self_R = (1 / 2, 3 / 10),
                 self_particles = [(1, 0, 0)] \<rparr> [1, 1, c, d] [0..<2]
     = Inr \<lparr> self_dt = 1, self_N = 1, self_landmarks = [(0, 0), (1, - 1)],
             self_robot = (0, 0, 0),
             self_weights = [exp (- (17 / 100)) / (2 * pi) *
                             (exp (- ((1 / 4 + (pi / 2 - 3 / 10)\<^sup>2) / 2)) / (2 * pi))],
             self_Q = (1, 1, 1), self_R = (1 / 2, 3 / 10),
             self_particles = [(1, 0, 0)] \<rparr> \<and>
   update \<lparr> self_dt = 1, self_N = 1, self_landmarks = [(0, 0), (1, - 1)],
            self_robot = (0, 0, 0),
            self_weights = [1], self_Q = (1, 1, 1), self_R = (1 / 2, 3 / 10),
            self_particles = [(1, 0, 0)] \<rparr> [1, 0, 1, pi / 2]
     = Inl SingularMatrix"
proof -
  have u: "[0..<2] = [0, Suc 0]" by (simp add: upt_rec)
  have f0: "normpdf (1, 0) (1 / 2, 3 / 10) 1 = Inr (exp (- (17 / 100)) / (2 * pi))"
    by (simp add: normpdf_value power2_eq_square)
  have "- ((1 - 1 / 2)\<^sup>2 + (pi / 2 - 3 / 10)\<^sup>2) / (2 * 1)
        = - ((1 / 4 + (pi / 2 - 3 / 10)\<^sup>2) / 2)"
    by (simp add: power2_eq_square add_divide_distrib)
  then have f1: "normpdf (1, pi / 2) (1 / 2, 3 / 10) 1
                 = Inr (exp (- ((1 / 4 + (pi / 2 - 3 / 10)\<^sup>2) / 2)) / (2 * pi))"
    by (simp add: normpdf_value)
  show ?thesis
    by (simp add: u update_def update_landmark_def shapes_ok_def arctan2_def wrapToPiN_def
        wrapToPi_zero wrapToPi_half_pi f0 f1 normpdf_zero Let_def)
qed

subsection \<open>Resampling\<close>

lemma length_assign_all: "assign_all a b = Inr c \<Longrightarrow> length c = length a"
  by (auto simp: assign_all_def split: if_splits)

lemma resample_with_result:
  assumes "resample_with pf indexes d = Inr pf'"
  shows "length (self_particles pf') = length (self_particles pf)"
    and "self_weights pf' = replicate (length (self_weights pf)) (1 / real (d pf))"
    and "self_N pf' = self_N pf"
    and "d pf \<noteq> 0"
proof -
  from assms obtain rows ps wrows ws where
    a: "assign_all (self_particles pf) rows = Inr ps"
    and b: "assign_all (self_weights pf) wrows = Inr ws"
    and d: "d pf \<noteq> 0"
    and r: "pf' = pf\<lparr>self_particles := ps,
                      self_weights := replicate (length ws) (1 / real (d pf))\<rparr>"
    by (auto simp: resample_with_def split: sum.splits if_splits)
  from r length_assign_all [OF a]
  show "length (self_particles pf') = length (self_particles pf)" by simp
  from r length_assign_all [OF b]
  show "self_weights pf' = replicate (length (self_weights pf)) (1 / real (d pf))" by simp
  from r show "self_N pf' = self_N pf" by simp
  from d show "d pf \<noteq> 0" .
qed

lemma resample_with_resampled:
  assumes "shapes_ok pf" and "resample_with pf indexes d = Inr pf'"
    and "d pf = self_N pf"
  shows "resampled pf pf'"
  using assms resample_with_result(1-3) [OF assms(2)]
  by (simp add: resampled_def shapes_ok_def)

lemma multinomial_resampled:
  assumes "shapes_ok pf" and "multinomial_resample pf g = Inr pf'"
  shows "resampled pf pf'"
proof -
  from assms(2) obtain indexes where h: "resample_with pf indexes self_N = Inr pf'"
    by (auto simp: multinomial_resample_def Let_def split: sum.splits)
  from resample_with_resampled [OF assms(1) h] show ?thesis by simp
qed

lemma residual_resampled:
  assumes "shapes_ok pf" and "residual_resample pf g = Inr pf'"
  shows "resampled pf pf'"
proof -
  from assms(2) obtain indexes where
    h: "resample_with pf indexes (\<lambda>p. length (self_weights p)) = Inr pf'"
    by (auto simp: residual_resample_def split: sum.splits)
  from resample_with_resampled [OF assms(1) h] assms(1) show ?thesis
    by (simp add: shapes_ok_def)
qed

lemma stratified_resampled:
  assumes "shapes_ok pf" and "stratified_resample pf g = Inr pf'"
  shows "resampled pf pf'"
proof -
  from assms(2) obtain indexes where
    h: "resample_with pf indexes (\<lambda>p. length (self_weights p)) = Inr pf'"
    by (auto simp: stratified_resample_def split: sum.splits)
  from resample_with_resampled [OF assms(1) h] assms(1) show ?thesis
    by (simp add: shapes_ok_def)
qed

lemma systematic_resampled:
  assumes "shapes_ok pf" and "systematic_resample pf u = Inr pf'"
  shows "resampled pf pf'"
proof -
  from assms(2) obtain indexes where
    h: "resample_with pf indexes (\<lambda>p. length (self_weights p)) = Inr pf'"
    by (auto simp: systematic_resample_def split: sum.splits)
  from resample_with_resampled [OF assms(1) h] assms(1) show ?thesis
    by (simp add: shapes_ok_def)
qed

lemma from_index_resampled:
  assumes "shapes_ok pf" and "resample_from_index pf indexes = Inr pf'"
  shows "resampled pf pf'"
proof -
  from assms(2) have
    h: "resample_with pf indexes (\<lambda>p. length (self_weights p)) = Inr pf'"
    by (simp add: resample_from_index_def)
  from resample_with_resampled [OF assms(1) h] assms(1) show ?thesis
    by (simp add: shapes_ok_def)
qed

text \<open>
  C4.  On a filter of \<open>N\<close> particles (particle set and weight vector of length
  \<open>self.N\<close>), every resampler that returns leaves exactly \<open>N\<close> particles and the weight
  vector \<open>N\<close> times \<open>1/N\<close>.  All five end with the same three lines on the index array
  they have computed; the first two parts say that these lines give this state for
  every index array, with \<open>fill(1.0 / N)\<close> and with \<open>fill(1.0 / len(self.weights))\<close>, and
  the other five say it of each resampler.
\<close>

theorem resample_postcondition:
  assumes "shapes_ok pf"
  shows "(resample_with pf indexes self_N = Inr pf' \<longrightarrow> resampled pf pf') \<and>
         (resample_with pf indexes (\<lambda>p. length (self_weights p)) = Inr pf' \<longrightarrow>
            resampled pf pf') \<and>
         (multinomial_resample pf g = Inr pf' \<longrightarrow> resampled pf pf') \<and>
         (residual_resample pf g = Inr pf' \<longrightarrow> resampled pf pf') \<and>
         (stratified_resample pf g = Inr pf' \<longrightarrow> resampled pf pf') \<and>
         (systematic_resample pf u = Inr pf' \<longrightarrow> resampled pf pf') \<and>
         (resample_from_index pf indexes = Inr pf' \<longrightarrow> resampled pf pf')"
proof -
  have a: "resample_with pf indexes self_N = Inr pf' \<longrightarrow> resampled pf pf'"
    using resample_with_resampled [OF assms, of indexes self_N pf'] by simp
  have b: "resample_with pf indexes (\<lambda>p. length (self_weights p)) = Inr pf' \<longrightarrow>
            resampled pf pf'"
    using resample_with_resampled [OF assms, of indexes "\<lambda>p. length (self_weights p)" pf']
      assms by (simp add: shapes_ok_def)
  from a b assms multinomial_resampled residual_resampled stratified_resampled
    systematic_resampled from_index_resampled
  show ?thesis by blast
qed

lemma upt_2: "[0..<2] = [0, Suc 0]"
  by (simp add: upt_rec)

lemma two_particles_multinomial:
  "multinomial_resample two_particles (\<lambda>i. 1 / 4)
   = Inr (two_particles\<lparr>self_particles := [(0, 0, 0), (0, 0, 0)],
                         self_weights := [1 / 2, 1 / 2]\<rparr>)"
proof -
  have "searchsorted [3 / 4, 1] [1 / 4, 1 / 4] = [0, 0]"
    by (simp add: searchsorted_def bisect.simps Let_def)
  then show ?thesis
    by (simp add: two_particles_def multinomial_resample_def cumsum_def set_last_def
        rand_def upt_2 resample_with_def take_rows_def assign_all_def Let_def
        numeral_2_eq_2)
qed

lemma two_particles_from_index:
  "resample_from_index two_particles [1, - 1]
   = Inr (two_particles\<lparr>self_particles := [(1, 0, 0), (1, 0, 0)],
                         self_weights := [1 / 2, 1 / 2]\<rparr>)"
  by (simp add: two_particles_def resample_from_index_def resample_with_def take_rows_def
      assign_all_def Let_def numeral_2_eq_2)

lemma two_particles_stratified_indexes:
  "stratified_indexes 2 [3 / 4, 1 / 4] (\<lambda>i. 1 / 4) = Inr [0, 0]"
  by (simp add: stratified_indexes_def rand_def upt_2 cumsum_def numeral_2_eq_2 walk.simps)

lemma two_particles_systematic_indexes:
  "systematic_indexes 2 [3 / 4, 1 / 4] (1 / 4) = Inr [0, 0]"
  by (simp add: systematic_indexes_def upt_2 cumsum_def numeral_2_eq_2 walk.simps)

lemma two_particles_residual_indexes:
  "residual_indexes 2 [3 / 4, 1 / 4] (\<lambda>i. 1 / 4) = Inr [0, 1]"
proof -
  have nc: "map (\<lambda>w. astype_int (real 2 * w)) [3 / 4, 1 / 4] = [1, 0]"
    by (simp add: astype_int_def)
  have cl: "copy_loop [0, Suc 0] [1, 0] (replicate 2 0, 0) = Inr ([0, 0], 1)"
    by (simp add: numeral_2_eq_2)
  have cs: "cumsum_np [divide_np (- (1 / 4)) 0, divide_np (1 / 4) 0] = [NInf, NaN]"
    by (simp add: cumsum_np_def divide_np_def)
  have ss: "searchsorted_np [NInf, Fin 1] [1 / 4] = [1]"
    by (simp add: searchsorted_np_def bisect.simps Let_def)
  show ?thesis
    unfolding residual_indexes_def Let_def nc upt_2 cl
    by (simp add: cs set_last_np_def ss rand_def)
qed

theorem resample_postcondition_witness:
  "shapes_ok two_particles \<and>
   self_weights two_particles = [3 / 4, 1 / 4] \<and>
   multinomial_resample two_particles (\<lambda>i. 1 / 4)
     = Inr (two_particles\<lparr>self_particles := [(0, 0, 0), (0, 0, 0)],
                           self_weights := [1 / 2, 1 / 2]\<rparr>) \<and>
   residual_resample two_particles (\<lambda>i. 1 / 4)
     = Inr (two_particles\<lparr>self_weights := [1 / 2, 1 / 2]\<rparr>) \<and>
   stratified_resample two_particles (\<lambda>i. 1 / 4)
     = Inr (two_particles\<lparr>self_particles := [(0, 0, 0), (0, 0, 0)],
                           self_weights := [1 / 2, 1 / 2]\<rparr>) \<and>
   systematic_resample two_particles (1 / 4)
     = Inr (two_particles\<lparr>self_particles := [(0, 0, 0), (0, 0, 0)],
                           self_weights := [1 / 2, 1 / 2]\<rparr>) \<and>
   resample_from_index two_particles [1, - 1]
     = Inr (two_particles\<lparr>self_particles := [(1, 0, 0), (1, 0, 0)],
                           self_weights := [1 / 2, 1 / 2]\<rparr>) \<and>
   resampled two_particles
     (two_particles\<lparr>self_particles := [(0, 0, 0), (0, 0, 0)],
                    self_weights := [1 / 2, 1 / 2]\<rparr>) \<and>
   resampled two_particles (two_particles\<lparr>self_weights := [1 / 2, 1 / 2]\<rparr>) \<and>
   resampled two_particles
     (two_particles\<lparr>self_particles := [(1, 0, 0), (1, 0, 0)],
                    self_weights := [1 / 2, 1 / 2]\<rparr>)"
proof -
  let ?a = "two_particles\<lparr>self_particles := [(0, 0, 0), (0, 0, 0)],
                          self_weights := [1 / 2, 1 / 2]\<rparr>"
  let ?b = "two_particles\<lparr>self_weights := [1 / 2, 1 / 2]\<rparr>"
  let ?c = "two_particles\<lparr>self_particles := [(1, 0, 0), (1, 0, 0)],
                          self_weights := [1 / 2, 1 / 2]\<rparr>"
  have ok: "shapes_ok two_particles" by (simp add: shapes_ok_def two_particles_def)
  have w: "self_weights two_particles = [3 / 4, 1 / 4]" and n: "self_N two_particles = 2"
    by (simp_all add: two_particles_def)
  have keep: "resample_with two_particles (map int [0, 1]) (\<lambda>p. length (self_weights p))
              = Inr ?b"
    by (simp add: two_particles_def resample_with_def take_rows_def assign_all_def Let_def
        numeral_2_eq_2)
  have first: "resample_with two_particles (map int [0, 0]) (\<lambda>p. length (self_weights p))
               = Inr ?a"
    by (simp add: two_particles_def resample_with_def take_rows_def assign_all_def Let_def
        numeral_2_eq_2)
  have r: "residual_resample two_particles (\<lambda>i. 1 / 4) = Inr ?b"
    using keep by (simp add: residual_resample_def w n two_particles_residual_indexes)
  have s: "stratified_resample two_particles (\<lambda>i. 1 / 4) = Inr ?a"
    using first by (simp add: stratified_resample_def w n two_particles_stratified_indexes)
  have y: "systematic_resample two_particles (1 / 4) = Inr ?a"
    using first by (simp add: systematic_resample_def w n two_particles_systematic_indexes)
  from resample_postcondition [OF ok, of _ ?a "\<lambda>i. 1 / 4"] two_particles_multinomial
  have a: "resampled two_particles ?a" by simp
  from resample_postcondition [OF ok, of _ ?b "\<lambda>i. 1 / 4"] r
  have b: "resampled two_particles ?b" by simp
  from resample_postcondition [OF ok, of "[1, - 1]" ?c] two_particles_from_index
  have c: "resampled two_particles ?c" by simp
  from ok w two_particles_multinomial r s y two_particles_from_index a b c
  show ?thesis by simp
qed

lemma make_copies_result:
  assumes "k + c \<le> length indexes"
  shows "\<exists>ix. make_copies i c (indexes, k) = Inr (ix, k + c) \<and> length ix = length indexes \<and>
           take (k + c) ix = take k indexes @ replicate c i"
  using assms
proof (induction c arbitrary: indexes k)
  case 0
  then show ?case by simp
next
  case (Suc c)
  then have k: "k < length indexes" by simp
  from Suc.prems have "Suc k + c \<le> length (indexes[k := i])" by simp
  from Suc.IH [OF this] obtain ix where
    ix: "make_copies i c (indexes[k := i], Suc k) = Inr (ix, Suc k + c)"
      "length ix = length indexes"
      "take (Suc k + c) ix = take (Suc k) (indexes[k := i]) @ replicate c i" by auto
  from k have "take (Suc k) (indexes[k := i]) = take k indexes @ [i]"
    by (simp add: take_Suc_conv_app_nth)
  with ix(3) have "take (k + Suc c) ix = take k indexes @ replicate (Suc c) i"
    by (simp add: replicate_app_Cons_same)
  with ix(1,2) k show ?case by simp
qed

lemma copy_loop_result:
  assumes "\<forall>i\<in>set is. i < length num_copies"
    and "k + length (concat (map (\<lambda>i. replicate (nat (num_copies ! i)) i) is)) \<le> length indexes"
  shows "\<exists>ix. copy_loop is num_copies (indexes, k)
              = Inr (ix, k + length (concat (map (\<lambda>i. replicate (nat (num_copies ! i)) i) is))) \<and>
           length ix = length indexes \<and>
           take (k + length (concat (map (\<lambda>i. replicate (nat (num_copies ! i)) i) is))) ix
             = take k indexes @ concat (map (\<lambda>i. replicate (nat (num_copies ! i)) i) is)"
  using assms
proof (induction "is" arbitrary: indexes k)
  case Nil
  then show ?case by simp
next
  case (Cons i "is")
  let ?c = "nat (num_copies ! i)"
  let ?rest = "concat (map (\<lambda>i. replicate (nat (num_copies ! i)) i) is)"
  from Cons.prems have i: "i < length num_copies" by simp
  from Cons.prems have kc: "k + ?c \<le> length indexes" by simp
  from make_copies_result [OF kc, of i] obtain ix1 where
    ix1: "make_copies i ?c (indexes, k) = Inr (ix1, k + ?c)" "length ix1 = length indexes"
      "take (k + ?c) ix1 = take k indexes @ replicate ?c i" by blast
  from Cons.prems ix1(2) have a: "\<forall>i\<in>set is. i < length num_copies"
    and b: "(k + ?c) + length ?rest \<le> length ix1" by simp_all
  from Cons.IH [OF a b] obtain ix where
    ix: "copy_loop is num_copies (ix1, k + ?c) = Inr (ix, (k + ?c) + length ?rest)"
      "length ix = length ix1"
      "take ((k + ?c) + length ?rest) ix = take (k + ?c) ix1 @ ?rest" by blast
  from i ix1(1) ix(1)
  have "copy_loop (i # is) num_copies (indexes, k) = Inr (ix, (k + ?c) + length ?rest)"
    by simp
  with ix(2,3) ix1(2,3) show ?case by (simp add: add.assoc)
qed

lemma upt_4: "[0..<4] = [0, 1, 2, 3]"
  by (simp add: upt_rec numeral_eq_Suc)

lemma four_copies:
  "copy_loop [0, 1, 2, 3] [2, 1, 0, 0] ([0, 0, 0, 0], 0) = Inr ([0, 0, 1, 0], 3)"
  by (simp add: numeral_eq_Suc)

lemma astype_int_nonneg: "0 \<le> x \<Longrightarrow> astype_int x = \<lfloor>x\<rfloor>"
  by (simp add: astype_int_def)

lemma copies_le_total:
  fixes ws :: "real list"
  assumes "\<forall>w\<in>set ws. 0 \<le> w" and "0 \<le> c"
  shows "real (sum_list (map (\<lambda>w. nat \<lfloor>c * w\<rfloor>) ws)) \<le> c * sum_list ws"
  using assms(1)
proof (induction ws)
  case Nil
  then show ?case by simp
next
  case (Cons w ws)
  then have "0 \<le> c * w" using assms(2) by simp
  then have "real (nat \<lfloor>c * w\<rfloor>) \<le> c * w" by (simp add: of_nat_nat)
  with Cons show ?case by (simp add: algebra_simps)
qed

lemma length_copies:
  "length (concat (map (\<lambda>i. replicate (f i) i) is)) = sum_list (map f is)"
  by (induction "is") simp_all

lemma count_replicate: "count_list (replicate c i) j = (if j = i then c else 0)"
  by (induction c) auto

lemma count_copies:
  "distinct is \<Longrightarrow>
   count_list (concat (map (\<lambda>i. replicate (f i) i) is)) j = (if j \<in> set is then f j else 0)"
proof (induction "is")
  case Nil
  then show ?case by simp
next
  case (Cons i "is")
  from Cons show ?case by (auto simp: count_replicate)
qed

lemma sum_residual:
  fixes ws :: "real list"
  assumes "\<forall>w\<in>set ws. 0 \<le> w" and "0 \<le> c"
  shows "sum_list (map2 (\<lambda>w k. w - real_of_int k) ws (map (\<lambda>w. \<lfloor>c * w\<rfloor>) ws))
         = sum_list ws - real (sum_list (map (\<lambda>w. nat \<lfloor>c * w\<rfloor>) ws))"
  using assms(1)
proof (induction ws)
  case Nil
  then show ?case by simp
next
  case (Cons w ws)
  then have "0 \<le> c * w" using assms(2) by simp
  then have "real (nat \<lfloor>c * w\<rfloor>) = real_of_int \<lfloor>c * w\<rfloor>" by simp
  with Cons show ?case by simp
qed

lemma map_index: "map (\<lambda>i. f (xs ! i)) [0..<length xs] = map f xs"
  by (rule nth_equalityI) simp_all

lemma length_binsearch:
  "length (binsearch cmp arr keys min_idx max_idx last_key_val) = length keys"
  by (induction keys arbitrary: min_idx max_idx last_key_val) (simp_all add: Let_def)

lemma length_searchsorted_np: "length (searchsorted_np a v) = length v"
  by (cases v) (simp_all add: searchsorted_np_def length_binsearch Let_def)

lemma length_searchsorted: "length (searchsorted a v) = length v"
  by (cases v) (simp_all add: searchsorted_def length_binsearch Let_def)

lemma residual_indexes_structure:
  fixes weights :: "real list"
  assumes len: "length weights = n" and nn: "\<forall>w\<in>set weights. 0 \<le> w"
    and one: "sum_list weights = 1"
    and k: "k = sum_list (map (\<lambda>w. nat \<lfloor>real n * w\<rfloor>) weights)"
  shows "\<exists>fill. residual_indexes n weights g
            = Inr (concat (map (\<lambda>i. replicate (nat \<lfloor>real n * weights ! i\<rfloor>) i) [0..<n]) @ fill) \<and>
           length (concat (map (\<lambda>i. replicate (nat \<lfloor>real n * weights ! i\<rfloor>) i) [0..<n])) = k \<and>
           length fill = n - k \<and> k \<le> n"
proof -
  let ?nc = "map (\<lambda>w. astype_int (real n * w)) weights"
  let ?copies = "concat (map (\<lambda>i. replicate (nat \<lfloor>real n * weights ! i\<rfloor>) i) [0..<n])"
  have nc: "?nc = map (\<lambda>w. \<lfloor>real n * w\<rfloor>) weights"
    using nn by (simp add: astype_int_nonneg)
  have "map (\<lambda>i. replicate (nat (?nc ! i)) i) [0..<n]
        = map (\<lambda>i. replicate (nat \<lfloor>real n * weights ! i\<rfloor>) i) [0..<n]"
    using len by (simp add: nc)
  then have cp: "concat (map (\<lambda>i. replicate (nat (?nc ! i)) i) [0..<n]) = ?copies"
    by (rule arg_cong)
  have "length ?copies = sum_list (map (\<lambda>i. nat \<lfloor>real n * weights ! i\<rfloor>) [0..<n])"
    by (rule length_copies)
  also have "\<dots> = sum_list (map (\<lambda>w. nat \<lfloor>real n * w\<rfloor>) weights)"
    using map_index [of "\<lambda>w. nat \<lfloor>real n * w\<rfloor>" weights] len by simp
  finally have lk: "length ?copies = k" using k by simp
  from copies_le_total [OF nn, of "real n"] one k have "real k \<le> real n" by simp
  then have kn: "k \<le> n" by simp
  have pre: "\<forall>i\<in>set [0..<n]. i < length ?nc" using len by simp
  have fit: "0 + length (concat (map (\<lambda>i. replicate (nat (?nc ! i)) i) [0..<n]))
             \<le> length (replicate n (0::nat))"
    using cp lk kn by simp
  from copy_loop_result [OF pre fit] cp lk obtain ix where
    ix: "copy_loop [0..<n] ?nc (replicate n 0, 0) = Inr (ix, k)" "length ix = n"
      "take k ix = ?copies" by auto
  let ?residual = "map2 (\<lambda>w c. w - real_of_int c) weights ?nc"
  from one have "weights \<noteq> []" by auto
  then have "cumsum_np (map (\<lambda>r. divide_np r (sum_list ?residual)) ?residual) \<noteq> []"
    by (cases weights) (simp_all add: cumsum_np_def)
  then obtain cs where
    cs: "set_last_np (cumsum_np (map (\<lambda>r. divide_np r (sum_list ?residual)) ?residual))
           (Fin 1) = Inr cs"
    by (simp add: set_last_np_def)
  from ix(1) cs
  have "residual_indexes n weights g = Inr (take k ix @ searchsorted_np cs (rand g (n - k)))"
    by (simp add: residual_indexes_def Let_def)
  with ix(3) have "residual_indexes n weights g
                   = Inr (?copies @ searchsorted_np cs (rand g (n - k)))" by simp
  moreover have "length (searchsorted_np cs (rand g (n - k))) = n - k"
    by (simp add: length_searchsorted_np rand_def)
  ultimately show ?thesis using lk kn by blast
qed

lemma copies_count:
  assumes "i < n"
  shows "count_list (concat (map (\<lambda>i. replicate (nat \<lfloor>real n * weights ! i\<rfloor>) i) [0..<n])) i
         = nat \<lfloor>real n * weights ! i\<rfloor>"
  using assms count_copies [of "[0..<n]" "\<lambda>i. nat \<lfloor>real n * weights ! i\<rfloor>" i] by simp

text \<open>
  C9.  What the code does where the claim asks for a fill drawn from the fractional
  weights.  The copies are as claimed: \<open>residual_indexes_structure\<close> and \<open>copies_count\<close>
  show \<open>floor (N * w\<^sub>i)\<close> copies of every \<open>i\<close>, in order, and \<open>N\<close> indexes in all.  The
  fill is not: \<open>residual = self.weights - num_copies\<close> subtracts the copies from \<open>w\<^sub>i\<close>,
  not from \<open>N * w\<^sub>i\<close>, under the comment \<open>get fractional part\<close>.  With \<open>N = 4\<close>, weights
  \<open>(1/2, 3/8, 1/8, 0)\<close> and the draw \<open>1/2\<close> for the one free slot, the code fills it with
  particle 0, whose fractional weight is 0; the fractional weights \<open>(0, 1/2, 1/2, 0)\<close>
  give particle 1 for this draw.
\<close>

theorem residual_fill_not_fractional:
  "residual_indexes 4 [1 / 2, 3 / 8, 1 / 8, 0] (\<lambda>i. 1 / 2) = Inr [0, 0, 1, 0] \<and>
   fractional_weights 4 [1 / 2, 3 / 8, 1 / 8, 0] = [0, 1 / 2, 1 / 2, 0] \<and>
   searchsorted (cumsum (fractional_weights 4 [1 / 2, 3 / 8, 1 / 8, 0])) [1 / 2] = [1]"
proof -
  have nc: "map (\<lambda>w. astype_int (real 4 * w)) [1 / 2, 3 / 8, 1 / 8, 0] = [2, 1, 0, 0]"
    by (simp add: astype_int_def)
  have r4: "replicate 4 (0::nat) = [0, 0, 0, 0]" by (simp add: numeral_eq_Suc)
  have cs: "cumsum_np [Fin (3 / 4), Fin (5 / 16), Fin (- (1 / 16)), Fin 0]
            = [Fin (3 / 4), Fin (17 / 16), Fin 1, Fin 1]"
    by (simp add: cumsum_np_def)
  have ss: "searchsorted_np [Fin (3 / 4), Fin (17 / 16), Fin 1, Fin 1] [1 / 2] = [0]"
    by (simp add: searchsorted_np_def bisect.simps Let_def)
  have a: "residual_indexes 4 [1 / 2, 3 / 8, 1 / 8, 0] (\<lambda>i. 1 / 2) = Inr [0, 0, 1, 0]"
    unfolding residual_indexes_def Let_def nc upt_4 r4 four_copies
    by (simp add: divide_np_def cs set_last_np_def ss rand_def)
  have b: "fractional_weights 4 [1 / 2, 3 / 8, 1 / 8, 0] = [0, 1 / 2, 1 / 2, 0]"
    by (simp add: fractional_weights_def)
  have c: "searchsorted (cumsum [0, 1 / 2, 1 / 2, 0]) [1 / 2] = [1]"
    by (simp add: searchsorted_def cumsum_def bisect.simps Let_def)
  from a b c show ?thesis by simp
qed

subsection \<open>The index walk\<close>

lemma length_cumsum_from: "length (cumsum_from a xs) = length xs"
  by (induction xs arbitrary: a) simp_all

lemma nth_cumsum_from:
  "m < length xs \<Longrightarrow> cumsum_from a xs ! m = a + sum_list (take (Suc m) xs)"
proof (induction xs arbitrary: a m)
  case Nil
  then show ?case by simp
next
  case (Cons x xs)
  show ?case
  proof (cases m)
    case 0
    then show ?thesis by simp
  next
    case (Suc k)
    with Cons.prems have "k < length xs" by simp
    from Cons.IH [OF this, of "a + x"] Suc show ?thesis by simp
  qed
qed

lemma sum_take_one_hot:
  fixes ws :: "real list"
  assumes "j < length ws" and "ws ! j = 1" and "\<forall>i<length ws. i \<noteq> j \<longrightarrow> ws ! i = 0"
    and "k \<le> length ws"
  shows "sum_list (take k ws) = (if j < k then 1 else 0)"
  using assms(4)
proof (induction k)
  case 0
  then show ?case by simp
next
  case (Suc k)
  then have k: "k < length ws" by simp
  then have "take (Suc k) ws = take k ws @ [ws ! k]" by (rule take_Suc_conv_app_nth)
  then have "sum_list (take (Suc k) ws) = sum_list (take k ws) + ws ! k" by simp
  also have "\<dots> = (if j < k then 1 else 0) + ws ! k" using Suc by simp
  also have "\<dots> = (if j < Suc k then 1 else 0)"
  proof (cases "k = j")
    case True
    with assms(2) show ?thesis by simp
  next
    case False
    with assms(3) k have "ws ! k = 0" by simp
    with False show ?thesis by auto
  qed
  finally show ?case .
qed

lemma cumsum_one_hot:
  fixes ws :: "real list"
  assumes "j < length ws" and "ws ! j = 1" and "\<forall>i<length ws. i \<noteq> j \<longrightarrow> ws ! i = 0"
    and "m < length ws"
  shows "cumsum ws ! m = (if j \<le> m then 1 else 0)"
proof -
  from assms(4) have "cumsum ws ! m = sum_list (take (Suc m) ws)"
    by (simp add: cumsum_def nth_cumsum_from)
  also from assms have "\<dots> = (if j < Suc m then 1 else 0)"
    by (intro sum_take_one_hot) simp_all
  finally show ?thesis by (simp add: less_Suc_eq_le)
qed

lemma walk_one_hot:
  assumes "length positions = n" and "j0 < length cs"
    and "\<forall>m<j0. cs ! m = 0" and "cs ! j0 = 1"
    and "\<forall>k<n. 0 \<le> positions ! k \<and> positions ! k < 1"
    and "j \<le> j0" and "length ix = n"
  shows "\<exists>r. walk n positions cs ix i j = Inr r \<and> length r = n \<and>
           (\<forall>k<n. r ! k = (if k < i then ix ! k else j0))"
  using assms
proof (induction n positions cs ix i j rule: walk.induct)
  case (1 n positions cs ix i j)
  show ?case
  proof (cases "i < n")
    case False
    with "1.prems" show ?thesis by (simp add: walk.simps [of n positions cs ix i j])
  next
    case i: True
    from "1.prems" i have inb: "\<not> (length positions \<le> i \<or> length cs \<le> j)" by simp
    from "1.prems" i have pos: "0 \<le> positions ! i" "positions ! i < 1" by simp_all
    show ?thesis
    proof (cases "positions ! i < cs ! j")
      case lt: True
      have j: "j = j0"
      proof (rule ccontr)
        assume "j \<noteq> j0"
        with "1.prems" have "j < j0" by simp
        with "1.prems" have "cs ! j = 0" by simp
        with lt pos show False by simp
      qed
      from "1.prems" i have il: "i < length ix" by simp
      have "\<exists>r. walk n positions cs (ix[i := j]) (Suc i) j = Inr r \<and> length r = n \<and>
              (\<forall>k<n. r ! k = (if k < Suc i then ix[i := j] ! k else j0))"
        using "1.IH"(1) [OF i inb lt il] "1.prems" by simp
      then obtain r where r: "walk n positions cs (ix[i := j]) (Suc i) j = Inr r"
        "length r = n" "\<forall>k<n. r ! k = (if k < Suc i then ix[i := j] ! k else j0)" by blast
      have "\<forall>k<n. r ! k = (if k < i then ix ! k else j0)"
      proof (intro allI impI)
        fix k assume k: "k < n"
        show "r ! k = (if k < i then ix ! k else j0)"
        proof (cases "k = i")
          case True
          with r(3) k il j show ?thesis by simp
        next
          case False
          with r(3) k show ?thesis by (auto simp: less_Suc_eq)
        qed
      qed
      moreover from i inb lt il r(1)
      have "walk n positions cs ix i j = Inr r"
        by (simp add: walk.simps [of n positions cs ix i j])
      ultimately show ?thesis using r(2) by blast
    next
      case ge: False
      have "j \<noteq> j0"
      proof
        assume "j = j0"
        with "1.prems" ge pos show False by simp
      qed
      with "1.prems" have sj: "Suc j \<le> j0" by simp
      have "\<exists>r. walk n positions cs ix i (Suc j) = Inr r \<and> length r = n \<and>
              (\<forall>k<n. r ! k = (if k < i then ix ! k else j0))"
        using "1.IH"(2) [OF i inb ge] "1.prems" sj by simp
      moreover from i inb ge
      have "walk n positions cs ix i j = walk n positions cs ix i (Suc j)"
        by (simp add: walk.simps [of n positions cs ix i j])
      ultimately show ?thesis by simp
    qed
  qed
qed

lemma walk_all_mass_on_j:
  fixes weights :: "real list"
  assumes len: "length weights = n" and j: "j < n" and one: "weights ! j = 1"
    and zero: "\<forall>i<n. i \<noteq> j \<longrightarrow> weights ! i = 0"
    and lp: "length positions = n"
    and pos: "\<forall>k<n. 0 \<le> positions ! k \<and> positions ! k < 1"
  shows "walk n positions (cumsum weights) (replicate n 0) 0 0 = Inr (replicate n j)"
proof -
  have lc: "length (cumsum weights) = n" by (simp add: cumsum_def length_cumsum_from len)
  have c: "\<And>m. m < n \<Longrightarrow> cumsum weights ! m = (if j \<le> m then 1 else 0)"
    using cumsum_one_hot [of j weights] len j one zero by simp
  have c0: "\<forall>m<j. cumsum weights ! m = 0" using c j by simp
  have c1: "cumsum weights ! j = 1" using c j by simp
  from walk_one_hot [OF lp _ c0 c1 pos, of 0 "replicate n 0" 0] lc j
  obtain r where r: "walk n positions (cumsum weights) (replicate n 0) 0 0 = Inr r"
    "length r = n" "\<forall>k<n. r ! k = j" by auto
  from r(2,3) have "r = replicate n j" by (intro nth_equalityI) simp_all
  with r(1) show ?thesis by simp
qed

lemma stratified_positions:
  assumes "\<forall>i<n. 0 \<le> g i \<and> g i < 1"
  shows "length (map2 (\<lambda>r i. (r + real i) / real n) (rand g n) [0..<n]) = n"
    and "\<forall>k<n. 0 \<le> map2 (\<lambda>r i. (r + real i) / real n) (rand g n) [0..<n] ! k \<and>
               map2 (\<lambda>r i. (r + real i) / real n) (rand g n) [0..<n] ! k < 1"
proof -
  show "length (map2 (\<lambda>r i. (r + real i) / real n) (rand g n) [0..<n]) = n"
    by (simp add: rand_def)
  show "\<forall>k<n. 0 \<le> map2 (\<lambda>r i. (r + real i) / real n) (rand g n) [0..<n] ! k \<and>
               map2 (\<lambda>r i. (r + real i) / real n) (rand g n) [0..<n] ! k < 1"
  proof (intro allI impI)
    fix k assume k: "k < n"
    then have v: "map2 (\<lambda>r i. (r + real i) / real n) (rand g n) [0..<n] ! k
                  = (g k + real k) / real n"
      by (simp add: rand_def)
    from k assms have g: "0 \<le> g k" "g k < 1" by simp_all
    from k have "real k + 1 \<le> real n" by simp
    with g have "g k + real k < real n" by linarith
    with g k show "0 \<le> map2 (\<lambda>r i. (r + real i) / real n) (rand g n) [0..<n] ! k \<and>
               map2 (\<lambda>r i. (r + real i) / real n) (rand g n) [0..<n] ! k < 1"
      unfolding v by simp
  qed
qed

lemma systematic_positions:
  assumes "0 \<le> u" and "u < 1"
  shows "length (map (\<lambda>i. (real i + u) / real n) [0..<n]) = n"
    and "\<forall>k<n. 0 \<le> map (\<lambda>i. (real i + u) / real n) [0..<n] ! k \<and>
               map (\<lambda>i. (real i + u) / real n) [0..<n] ! k < 1"
proof -
  show "length (map (\<lambda>i. (real i + u) / real n) [0..<n]) = n" by simp
  show "\<forall>k<n. 0 \<le> map (\<lambda>i. (real i + u) / real n) [0..<n] ! k \<and>
               map (\<lambda>i. (real i + u) / real n) [0..<n] ! k < 1"
  proof (intro allI impI)
    fix k assume k: "k < n"
    then have "real k + 1 \<le> real n" by simp
    with assms have "real k + u < real n" by linarith
    with assms k show "0 \<le> map (\<lambda>i. (real i + u) / real n) [0..<n] ! k \<and>
               map (\<lambda>i. (real i + u) / real n) [0..<n] ! k < 1"
      by simp
  qed
qed

text \<open>
  In exact arithmetic the two walks are right: for a weight vector of length \<open>n\<close> that
  is 1 at index \<open>j\<close> and 0 elsewhere, and draws in \<open>[0, 1)\<close>, every position is below
  1, and both index computations return \<open>n\<close> times \<open>j\<close>.
\<close>

lemma exact_all_mass_on_one_index:
  fixes weights :: "real list"
  assumes "length weights = n" and "j < n" and "weights ! j = 1"
    and "\<forall>i<n. i \<noteq> j \<longrightarrow> weights ! i = 0"
    and "\<forall>i<n. 0 \<le> g i \<and> g i < 1"
    and "0 \<le> u" and "u < 1"
  shows "stratified_indexes n weights g = Inr (replicate n j) \<and>
         systematic_indexes n weights u = Inr (replicate n j) \<and>
         length (replicate n j) = n"
proof -
  from walk_all_mass_on_j [OF assms(1-4) stratified_positions [OF assms(5)]]
  have a: "stratified_indexes n weights g = Inr (replicate n j)"
    by (simp add: stratified_indexes_def Let_def)
  from walk_all_mass_on_j [OF assms(1-4) systematic_positions [OF assms(6,7)]]
  have b: "systematic_indexes n weights u = Inr (replicate n j)"
    by (simp add: systematic_indexes_def Let_def)
  from a b show ?thesis by simp
qed

lemma exact_all_mass_on_one_index_example:
  "stratified_indexes 3 [0, 1, 0] (\<lambda>i. 1 / 4) = Inr [1, 1, 1] \<and>
   systematic_indexes 3 [0, 1, 0] (1 / 4) = Inr [1, 1, 1]"
proof -
  have z: "\<forall>i<3. i \<noteq> 1 \<longrightarrow> [0, 1, 0 :: real] ! i = 0"
    by (auto simp: less_Suc_eq numeral_3_eq_3)
  have g: "\<forall>i<(3::nat). 0 \<le> (1 / 4 :: real) \<and> (1 / 4 :: real) < 1" by simp
  from exact_all_mass_on_one_index [of "[0, 1, 0]" 3 1 "\<lambda>i. 1 / 4" "1 / 4", OF _ _ _ z g]
  show ?thesis by (simp add: numeral_3_eq_3)
qed

subsection \<open>float64 rounding\<close>

lemma pow2_powr: "pow2 e = 2 powr (of_int e)"
proof (cases "0 \<le> e")
  case True
  then have "2 powr (of_int e) = (2::real) powr (real (nat e))" by simp
  also have "\<dots> = 2 ^ nat e" by (simp add: powr_realpow)
  finally show ?thesis using True by (simp add: pow2_def)
next
  case False
  then have "(2::real) powr (of_int e) = 2 powr (- real (nat (- e)))" by simp
  also have "\<dots> = 1 / 2 ^ nat (- e)" by (simp add: powr_minus powr_realpow inverse_eq_divide)
  finally show ?thesis using False by (simp add: pow2_def)
qed

lemma pow2_pos: "0 < pow2 e"
  by (simp add: pow2_powr)

lemma round64_in_binade:
  assumes "pow2 e \<le> \<bar>x\<bar>" and "\<bar>x\<bar> < pow2 (e + 1)" and "- 1022 \<le> e"
  shows "round64 x = of_int (rne (x / pow2 (e - 52))) * pow2 (e - 52)"
proof -
  from assms(1) pow2_pos [of e] have x: "0 < \<bar>x\<bar>" by linarith
  have "\<lfloor>log 2 \<bar>x\<bar>\<rfloor> = e"
    using assms(1,2) x by (simp add: floor_log_eq_powr_iff pow2_powr)
  with x assms(3) show ?thesis by (simp add: round64_def Let_def max_def)
qed

lemma rne_int: "rne (of_int m) = m"
  by (simp add: rne_def)

lemma round64_fixed:
  assumes "pow2 e \<le> \<bar>x\<bar>" and "\<bar>x\<bar> < pow2 (e + 1)" and "- 1022 \<le> e"
    and "x / pow2 (e - 52) = of_int m"
  shows "round64 x = x"
proof -
  have "round64 x = of_int (rne (x / pow2 (e - 52))) * pow2 (e - 52)"
    using assms(1-3) by (rule round64_in_binade)
  also have "\<dots> = of_int m * pow2 (e - 52)" by (simp add: assms(4) rne_int)
  also have "\<dots> = x" using assms(4) pow2_pos [of "e - 52"] by (simp add: field_simps)
  finally show ?thesis .
qed

lemma round64_one: "round64 1 = 1"
  by (rule round64_fixed [of 0 _ "2 ^ 52"]) (simp_all add: pow2_def)

lemma round64_largest_draw: "round64 (1 - 1 / 2 ^ 53) = 1 - 1 / 2 ^ 53"
  by (rule round64_fixed [of "- 1" _ "2 ^ 53 - 1"]) (simp_all add: pow2_def)

lemma round64_half_largest_draw: "round64 ((1 - 1 / 2 ^ 53) / 2) = (1 - 1 / 2 ^ 53) / 2"
  by (rule round64_fixed [of "- 2" _ "2 ^ 53 - 1"]) (simp_all add: pow2_def)

lemma round64_tie_below_two: "round64 (2 - 1 / 2 ^ 53) = 2"
proof -
  have "round64 (2 - 1 / 2 ^ 53)
        = of_int (rne ((2 - 1 / 2 ^ 53) / pow2 (0 - 52))) * pow2 (0 - 52)"
    by (rule round64_in_binade) (simp_all add: pow2_def)
  also have "(2 - 1 / 2 ^ 53) / pow2 (0 - 52) = 9007199254740991 + 1 / (2::real)"
    by (simp add: pow2_def)
  also have "rne (9007199254740991 + 1 / 2) = 9007199254740992"
    by (simp add: rne_def)
  finally show ?thesis by (simp add: pow2_def)
qed

text \<open>
  C8.  What the code does at the largest draw.  \<open>rand\<close> returns multiples of \<open>2^-53\<close> in
  \<open>[0, 1)\<close>, the largest being \<open>1 - 2^-53\<close>.  With \<open>N = 2\<close> and this draw, the last
  position is \<open>(1 + (1 - 2^-53)) / 2\<close>; the sum \<open>2 - 2^-53\<close> lies halfway between the
  float64 numbers \<open>2 - 2^-52\<close> and \<open>2\<close> and rounds to \<open>2\<close>, so the position is \<open>1.0\<close>.
  For the weights \<open>(1, 0)\<close>, all mass on index 0, the cumulative sum is \<open>(1, 1)\<close>, in
  float64 as in exact arithmetic; \<open>positions[1] < cumulative_sum[j]\<close> is false for
  every \<open>j\<close>, and the walk of both resamplers runs off the end of \<open>cumulative_sum\<close>
  with an IndexError where the claim has it return \<open>(0, 0)\<close>.
\<close>

theorem walk_past_the_end:
  "stratified_positions_f64 2 (\<lambda>i. 1 - 1 / 2 ^ 53) = [(1 - 1 / 2 ^ 53) / 2, 1] \<and>
   systematic_positions_f64 2 (1 - 1 / 2 ^ 53) = [(1 - 1 / 2 ^ 53) / 2, 1] \<and>
   cumsum [1, 0] = [1, 1] \<and>
   walk 2 (stratified_positions_f64 2 (\<lambda>i. 1 - 1 / 2 ^ 53)) (cumsum [1, 0])
     (replicate 2 0) 0 0 = Inl IndexError \<and>
   walk 2 (systematic_positions_f64 2 (1 - 1 / 2 ^ 53)) (cumsum [1, 0])
     (replicate 2 0) 0 0 = Inl IndexError"
proof -
  have s1: "(1 - 1 / 2 ^ 53) + real (Suc 0) = 2 - 1 / 2 ^ 53" by simp
  have s2: "real (Suc 0) + (1 - 1 / 2 ^ 53) = 2 - 1 / 2 ^ 53" by simp
  have a: "stratified_positions_f64 2 (\<lambda>i. 1 - 1 / 2 ^ 53) = [(1 - 1 / 2 ^ 53) / 2, 1]"
    unfolding stratified_positions_f64_def rand_def upt_2
    by (simp only: list.map zip.simps list.case prod.case s1 round64_tie_below_two
        round64_largest_draw round64_half_largest_draw round64_one of_nat_0 add_0_right
        of_nat_numeral div_self zip_Cons_Cons zip_Nil)
  have b: "systematic_positions_f64 2 (1 - 1 / 2 ^ 53) = [(1 - 1 / 2 ^ 53) / 2, 1]"
    unfolding systematic_positions_f64_def upt_2
    by (simp only: list.map s2 round64_tie_below_two round64_largest_draw
        round64_half_largest_draw round64_one of_nat_0 add_0_left of_nat_numeral div_self)
  have c: "cumsum [1, 0] = [1, 1]" by (simp add: cumsum_def)
  have w: "walk 2 [(1 - 1 / 2 ^ 53) / 2, 1] [1, 1] (replicate 2 0) 0 0 = Inl IndexError"
    by (simp add: walk.simps numeral_2_eq_2)
  from a b c w show ?thesis by simp
qed







lemma rne_ge_floor: "\<lfloor>y\<rfloor> \<le> rne y"
  by (simp add: rne_def Let_def)

lemma pow2_diff: "pow2 e / pow2 (e - 52) = 2 ^ 52"
proof -
  have "pow2 e / pow2 (e - 52) = 2 powr (of_int e - of_int (e - 52))"
    by (simp add: pow2_powr powr_diff)
  also have "\<dots> = 2 powr (52 :: real)" by simp
  also have "\<dots> = 2 ^ 52" by simp
  finally show ?thesis .
qed

lemma f64_overflow:
  assumes "2 ^ 1024 \<le> x"
  shows "f64 x = PInf"
proof -
  from assms have x: "0 < x" by (smt (verit) zero_less_power)
  define e where "e = \<lfloor>log 2 x\<rfloor>"
  have b: "pow2 e \<le> x" "x < pow2 (e + 1)"
    using floor_log_eq_powr_iff [of x 2 e] x by (simp_all add: e_def pow2_powr)
  have "(2::real) powr 1024 \<le> x" using assms by simp
  then have "1024 \<le> log 2 x" using x by (simp add: le_log_iff)
  then have e: "1024 \<le> e" unfolding e_def by linarith
  have q: "0 < pow2 (e - 52)" by (rule pow2_pos)
  have r: "round64 x = of_int (rne (x / pow2 (e - 52))) * pow2 (e - 52)"
    using b x e by (intro round64_in_binade) simp_all
  have "(2::real) ^ 52 = pow2 e / pow2 (e - 52)" by (simp add: pow2_diff)
  also have "\<dots> \<le> x / pow2 (e - 52)" using b(1) q by (simp add: divide_right_mono)
  finally have "(2::int) ^ 52 \<le> \<lfloor>x / pow2 (e - 52)\<rfloor>" by (simp add: le_floor_iff)
  with rne_ge_floor [of "x / pow2 (e - 52)"] have "(2::int) ^ 52 \<le> rne (x / pow2 (e - 52))"
    by linarith
  then have "(2::real) ^ 52 \<le> of_int (rne (x / pow2 (e - 52)))"
    by (metis of_int_le_iff of_int_numeral of_int_power)
  then have "2 ^ 52 * pow2 (e - 52) \<le> of_int (rne (x / pow2 (e - 52))) * pow2 (e - 52)"
    using q by (simp add: mult_right_mono)
  moreover have "2 ^ 52 * pow2 (e - 52) = pow2 e"
    using pow2_diff [of e] q by (simp add: field_simps)
  ultimately have "pow2 e \<le> round64 x" using r by simp
  moreover have "(2::real) powr (of_int 1024) \<le> 2 powr (of_int e)"
    using e by (intro powr_mono) simp_all
  then have "pow2 1024 \<le> pow2 e" by (simp only: pow2_powr)
  moreover have "pow2 1024 = 2 ^ 1024" by (simp add: pow2_def)
  ultimately have "2 ^ 1024 \<le> round64 x" by linarith
  then show ?thesis by (simp add: f64_def Let_def)
qed

lemma exp_1700_beyond_float64: "2 ^ 1024 < exp (1700 :: real)"
proof -
  have "(2::real) \<le> exp 1" using exp_ge_add_one_self [of "1::real"] by simp
  then have "(2::real) ^ 1700 \<le> exp 1 ^ 1700" by (intro power_mono) simp_all
  also have "exp (1::real) ^ 1700 = exp (of_nat 1700 * 1)" by (rule exp_of_nat_mult [symmetric])
  also have "\<dots> = exp 1700" by simp
  finally have "(2::real) ^ 1700 \<le> exp 1700" .
  moreover have "(2::real) ^ 1024 < 2 ^ 1700" by (rule power_strict_increasing) simp_all
  ultimately show ?thesis by linarith
qed

text \<open>
  C3.  What the code does where the claim has the weights sum to 1.  One particle at
  \<open>(1, 0)\<close> with heading 0 and weight 1, two landmarks at the origin, \<open>R = (0.5, 0.3)\<close>,
  and the finite observation \<open>[1, -1e-4]\<close>.  For landmark 1 the call
  \<open>normpdf(distance[j], self.R, z[0,i])\<close> takes \<open>z[0,1] = -1e-4\<close> for \<open>std\<close>: the
  exponent \<open>part2\<close> is \<open>+1700\<close> and the factor \<open>exp 1700 / (2\<pi> * 1e-4)\<close>.  \<open>exp 1700\<close> is
  beyond \<open>2 ^ 1024\<close>, above every float64, so \<open>np.exp\<close> returns \<open>inf\<close> (the rounding
  \<open>f64\<close> of it is \<open>PInf\<close>); the weight
  becomes \<open>inf\<close>, stays \<open>inf\<close> with the floor added, the sum is \<open>inf\<close>, not zero, and
  \<open>inf / inf\<close> leaves the weight \<open>nan\<close>: \<open>update\<close> returns and the weights do not sum
  to 1.
\<close>

theorem update_factor_overflows:
  "update_loop \<lparr> self_dt = 1, self_N = 1, self_landmarks = [(0, 0), (0, 0)],
                 self_robot = (0, 0, 0),
                 self_weights = [1], self_Q = (1, 1, 1), self_R = (1 / 2, 3 / 10),
                 self_particles = [(1, 0, 0)] \<rparr> [1, - (1 / 10000)] [0..<2]
     = Inr \<lparr> self_dt = 1, self_N = 1, self_landmarks = [(0, 0), (0, 0)],
             self_robot = (0, 0, 0),
             self_weights = [exp (- (17 / 100)) / (2 * pi) * (exp 1700 / (2 * pi / 10000))],
             self_Q = (1, 1, 1), self_R = (1 / 2, 3 / 10),
             self_particles = [(1, 0, 0)] \<rparr> \<and>
   2 ^ 1024 < exp (1700 :: real) \<and>
   f64 (exp 1700) = PInf"
proof -
  have f0: "normpdf (1, 0) (1 / 2, 3 / 10) 1 = Inr (exp (- (17 / 100)) / (2 * pi))"
    by (simp add: normpdf_value power2_eq_square)
  have e: "- ((1 - 1 / 2)\<^sup>2 + (0 - 3 / 10)\<^sup>2) / (2 * - (1 / 10000)) = (1700 :: real)"
    by (simp add: power2_eq_square)
  have "normpdf (1, 0) (1 / 2, 3 / 10) (- (1 / 10000))
        = Inr (exp (- ((1 - 1 / 2)\<^sup>2 + (0 - 3 / 10)\<^sup>2) / (2 * - (1 / 10000)))
               / (2 * pi * \<bar>- (1 / 10000)\<bar>))"
    by (rule normpdf_value) simp
  also have "\<dots> = Inr (exp 1700 / (2 * pi / 10000))"
    by (subst e) simp
  finally have f1: "normpdf (1, 0) (1 / 2, 3 / 10) (- (1 / 10000))
                    = Inr (exp 1700 / (2 * pi / 10000))" .
  have "update_loop \<lparr> self_dt = 1, self_N = 1, self_landmarks = [(0, 0), (0, 0)],
                 self_robot = (0, 0, 0),
                 self_weights = [1], self_Q = (1, 1, 1), self_R = (1 / 2, 3 / 10),
                 self_particles = [(1, 0, 0)] \<rparr> [1, - (1 / 10000)] [0..<2]
     = Inr \<lparr> self_dt = 1, self_N = 1, self_landmarks = [(0, 0), (0, 0)],
             self_robot = (0, 0, 0),
             self_weights = [exp (- (17 / 100)) / (2 * pi) * (exp 1700 / (2 * pi / 10000))],
             self_Q = (1, 1, 1), self_R = (1 / 2, 3 / 10),
             self_particles = [(1, 0, 0)] \<rparr>"
    by (simp add: upt_2 update_landmark_def shapes_ok_def arctan2_def wrapToPiN_def
        wrapToPi_zero f0 f1 Let_def)
  moreover have "f64 (exp 1700) = PInf"
    using exp_1700_beyond_float64 by (intro f64_overflow) simp
  ultimately show ?thesis using exp_1700_beyond_float64 by simp
qed

text \<open>
  Two more runs of the residual index computation.  With the weights \<open>(3/8, 1/8, 1/2, 0)\<close>
  the cumulative sum \<open>(0.3125, 0.25, 1, 1)\<close> is not ascending, and the binary search
  for the draw \<open>0.3\<close> ends at index 2.  With the weights \<open>(3/5, 2/5)\<close> the residuals
  \<open>(-2/5, 2/5)\<close> sum to zero, the division leaves \<open>(-inf, inf)\<close>, the cumulative sum is
  \<open>(-inf, nan)\<close> and, its last entry set to 1, the search ends at index 1.
\<close>

lemma residual_indexes_not_ascending:
  "residual_indexes 4 [3 / 8, 1 / 8, 1 / 2, 0] (\<lambda>i. 3 / 10) = Inr [0, 2, 2, 2]"
proof -
  have nc: "map (\<lambda>w. astype_int (real 4 * w)) [3 / 8, 1 / 8, 1 / 2, 0] = [1, 0, 2, 0]"
    by (simp add: astype_int_def)
  have r4: "replicate 4 (0::nat) = [0, 0, 0, 0]" by (simp add: numeral_eq_Suc)
  have cl: "copy_loop [0, 1, 2, 3] [1, 0, 2, 0] ([0, 0, 0, 0], 0) = Inr ([0, 2, 2, 0], 3)"
    by (simp add: numeral_eq_Suc)
  have cs: "cumsum_np [Fin (5 / 16), Fin (- (1 / 16)), Fin (3 / 4), Fin 0]
            = [Fin (5 / 16), Fin (1 / 4), Fin 1, Fin 1]"
    by (simp add: cumsum_np_def)
  have ss: "searchsorted_np [Fin (5 / 16), Fin (1 / 4), Fin 1, Fin 1] [3 / 10] = [2]"
    by (simp add: searchsorted_np_def bisect.simps Let_def)
  show ?thesis
    unfolding residual_indexes_def Let_def nc upt_4 r4 cl
    by (simp add: divide_np_def cs set_last_np_def ss rand_def)
qed

lemma residual_indexes_zero_sum:
  "residual_indexes 2 [3 / 5, 2 / 5] (\<lambda>i. 1 / 2) = Inr [0, 1]"
proof -
  have nc: "map (\<lambda>w. astype_int (real 2 * w)) [3 / 5, 2 / 5] = [1, 0]"
    by (simp add: astype_int_def)
  have cl: "copy_loop [0, Suc 0] [1, 0] (replicate 2 0, 0) = Inr ([0, 0], 1)"
    by (simp add: numeral_2_eq_2)
  have cs: "cumsum_np [divide_np (- (2 / 5)) 0, divide_np (2 / 5) 0] = [NInf, NaN]"
    by (simp add: cumsum_np_def divide_np_def)
  have ss: "searchsorted_np [NInf, Fin 1] [1 / 2] = [1]"
    by (simp add: searchsorted_np_def bisect.simps Let_def)
  show ?thesis
    unfolding residual_indexes_def Let_def nc upt_2 cl
    by (simp add: cs set_last_np_def ss rand_def)
qed

end
